theory Spec2Isabelle
  imports Main "HOL-Library.Char_ord" "HOL-Library.List_Lexorder"
begin

section \<open>Data model (types/index.ts)\<close>

text \<open>
  Timestamps are the strings produced by \<^verbatim>\<open>new Date().toISOString()\<close>. They are compared
  as JavaScript compares strings, lexicographically by character code, which is the order
  \<open>HOL-Library.List_Lexorder\<close> over \<open>HOL-Library.Char_ord\<close> puts on \<^typ>\<open>string\<close>.
  Every reading of the clock and every draw of \<^verbatim>\<open>crypto.randomUUID()\<close> is an explicit
  argument of the operation that makes it, in the order the source makes them. An operation
  that re-writes links or folders inside \<^verbatim>\<open>Array.map\<close> reads the clock in the callback, once
  for every element it re-writes: its argument \<open>now\<close> gives, for the position \<open>j\<close> of the
  collection, the reading taken there.
\<close>

type_synonym timestamp = string

datatype platform =
  youtube | twitter | instagram | linkedin | tiktok | github | medium | reddit | facebook | other

record link =
  link_id :: string
  url :: string
  title :: string
  link_description :: string
  thumbnail :: string
  link_platform :: platform
  folderId :: "string option"
  isFavorite :: bool
  deletedAt :: "timestamp option"
  link_createdAt :: timestamp
  link_updatedAt :: timestamp

record folder =
  folder_id :: string
  name :: string
  folder_description :: "string option"
  color :: string
  icon :: string
  parentId :: "string option"
  isPlatformFolder :: bool
  folder_platform :: "platform option"
  folder_createdAt :: timestamp
  folder_updatedAt :: timestamp

datatype theme = light | dark | system

datatype viewMode = grid | list_view

record appSettings =
  settings_theme :: theme
  settings_viewMode :: viewMode

text \<open>
  \<^verbatim>\<open>Partial<Link>\<close> and \<^verbatim>\<open>Partial<Folder>\<close>: every key is either absent (\<open>None\<close>) or carries
  a value of the field's own type. The argument of \<^verbatim>\<open>addLink\<close> is a link without
  \<^verbatim>\<open>id\<close>, \<^verbatim>\<open>createdAt\<close>, \<^verbatim>\<open>updatedAt\<close> and \<^verbatim>\<open>deletedAt\<close>; the argument of \<^verbatim>\<open>addFolder\<close>
  is a folder without \<^verbatim>\<open>id\<close>, \<^verbatim>\<open>createdAt\<close> and \<^verbatim>\<open>updatedAt\<close>.
\<close>

record link_partial =
  lp_id :: "string option"
  lp_url :: "string option"
  lp_title :: "string option"
  lp_description :: "string option"
  lp_thumbnail :: "string option"
  lp_platform :: "platform option"
  lp_folderId :: "string option option"
  lp_isFavorite :: "bool option"
  lp_deletedAt :: "timestamp option option"
  lp_createdAt :: "timestamp option"
  lp_updatedAt :: "timestamp option"

record folder_partial =
  fp_id :: "string option"
  fp_name :: "string option"
  fp_description :: "string option option"
  fp_color :: "string option"
  fp_icon :: "string option"
  fp_parentId :: "string option option"
  fp_isPlatformFolder :: "bool option"
  fp_platform :: "platform option option"
  fp_createdAt :: "timestamp option"
  fp_updatedAt :: "timestamp option"

record linkData =
  ld_url :: string
  ld_title :: string
  ld_description :: string
  ld_thumbnail :: string
  ld_platform :: platform
  ld_folderId :: "string option"
  ld_isFavorite :: bool

record folderData =
  fd_name :: string
  fd_description :: "string option"
  fd_color :: string
  fd_icon :: string
  fd_parentId :: "string option"
  fd_isPlatformFolder :: bool
  fd_platform :: "platform option"

definition no_link_updates :: link_partial where
  "no_link_updates =
     \<lparr>lp_id = None, lp_url = None, lp_title = None, lp_description = None,
      lp_thumbnail = None, lp_platform = None, lp_folderId = None, lp_isFavorite = None,
      lp_deletedAt = None, lp_createdAt = None, lp_updatedAt = None\<rparr>"

definition no_folder_updates :: folder_partial where
  "no_folder_updates =
     \<lparr>fp_id = None, fp_name = None, fp_description = None, fp_color = None,
      fp_icon = None, fp_parentId = None, fp_isPlatformFolder = None, fp_platform = None,
      fp_createdAt = None, fp_updatedAt = None\<rparr>"

section \<open>Persistence service, as the store uses it\<close>

text \<open>
  Modelled from the spec: \<^verbatim>\<open>services/storage\<close> is not among the sources. The spec gives
  three independently keyed records (links, folders, settings); \<^verbatim>\<open>getItem\<close> yields the
  stored value or "absent", \<^verbatim>\<open>setItem\<close> writes the value under its key. A write that
  exceeds the host's capacity is outside this model.
\<close>

record storage =
  stored_links :: "link list option"
  stored_folders :: "folder list option"
  stored_settings :: "appSettings option"

definition setItem_LINKS :: "link list \<Rightarrow> storage \<Rightarrow> storage" where
  "setItem_LINKS v st = st\<lparr>stored_links := Some v\<rparr>"

definition setItem_FOLDERS :: "folder list \<Rightarrow> storage \<Rightarrow> storage" where
  "setItem_FOLDERS v st = st\<lparr>stored_folders := Some v\<rparr>"

section \<open>The store (store/useStore.ts)\<close>

text \<open>
  The state of the store, with the fields the actions below read or write: the two
  collections, the settings, the hydration flag, the three fields that drive the folder form,
  and the durable copy every mutation is mirrored to.
\<close>

record appState =
  links :: "link list"
  folders :: "folder list"
  settings :: appSettings
  isHydrated :: bool
  isCreateFolderModalOpen :: bool
  editingFolderId :: "string option"
  parentFolderId :: "string option"
  localStorage :: storage

definition DEFAULT_SETTINGS :: appSettings where
  "DEFAULT_SETTINGS = \<lparr>settings_theme = system, settings_viewMode = grid\<rparr>"

text \<open>\<^verbatim>\<open>Array.map\<close>, whose callback runs once per position, in order.\<close>

definition mapi :: "(nat \<Rightarrow> 'a \<Rightarrow> 'b) \<Rightarrow> 'a list \<Rightarrow> 'b list" where
  "mapi f xs = map (\<lambda>(j, x). f j x) (enumerate 0 xs)"

text \<open>The object spread \<^verbatim>\<open>{ ...link, ...updates }\<close>: a key present in \<open>updates\<close> wins.\<close>

definition override :: "'a \<Rightarrow> 'a option \<Rightarrow> 'a" where
  "override old new = (case new of None \<Rightarrow> old | Some v \<Rightarrow> v)"

definition spread_link :: "link \<Rightarrow> link_partial \<Rightarrow> link" where
  "spread_link l updates =
     \<lparr>link_id = override (link_id l) (lp_id updates),
      url = override (url l) (lp_url updates),
      title = override (title l) (lp_title updates),
      link_description = override (link_description l) (lp_description updates),
      thumbnail = override (thumbnail l) (lp_thumbnail updates),
      link_platform = override (link_platform l) (lp_platform updates),
      folderId = override (folderId l) (lp_folderId updates),
      isFavorite = override (isFavorite l) (lp_isFavorite updates),
      deletedAt = override (deletedAt l) (lp_deletedAt updates),
      link_createdAt = override (link_createdAt l) (lp_createdAt updates),
      link_updatedAt = override (link_updatedAt l) (lp_updatedAt updates)\<rparr>"

definition spread_folder :: "folder \<Rightarrow> folder_partial \<Rightarrow> folder" where
  "spread_folder f updates =
     \<lparr>folder_id = override (folder_id f) (fp_id updates),
      name = override (name f) (fp_name updates),
      folder_description = override (folder_description f) (fp_description updates),
      color = override (color f) (fp_color updates),
      icon = override (icon f) (fp_icon updates),
      parentId = override (parentId f) (fp_parentId updates),
      isPlatformFolder = override (isPlatformFolder f) (fp_isPlatformFolder updates),
      folder_platform = override (folder_platform f) (fp_platform updates),
      folder_createdAt = override (folder_createdAt f) (fp_createdAt updates),
      folder_updatedAt = override (folder_updatedAt f) (fp_updatedAt updates)\<rparr>"

subsection \<open>Link actions\<close>

text \<open>
  \<^verbatim>\<open>addLink\<close> draws the identifier, then reads the clock once for \<^verbatim>\<open>createdAt\<close> and once
  more for \<^verbatim>\<open>updatedAt\<close>.
\<close>

definition addLink :: "string \<Rightarrow> timestamp \<Rightarrow> timestamp \<Rightarrow> linkData \<Rightarrow> appState \<Rightarrow> appState" where
  "addLink uuid now1 now2 linkData state =
     (let newLink =
            \<lparr>link_id = uuid,
             url = ld_url linkData,
             title = ld_title linkData,
             link_description = ld_description linkData,
             thumbnail = ld_thumbnail linkData,
             link_platform = ld_platform linkData,
             folderId = ld_folderId linkData,
             isFavorite = ld_isFavorite linkData,
             deletedAt = None,
             link_createdAt = now1,
             link_updatedAt = now2\<rparr>;
          updatedLinks = links state @ [newLink]
      in state\<lparr>links := updatedLinks,
               localStorage := setItem_LINKS updatedLinks (localStorage state)\<rparr>)"

definition updateLink ::
    "(nat \<Rightarrow> timestamp) \<Rightarrow> string \<Rightarrow> link_partial \<Rightarrow> appState \<Rightarrow> appState" where
  "updateLink now i updates state =
     (let updatedLinks =
            mapi (\<lambda>j l. if link_id l = i
                        then (spread_link l updates)\<lparr>link_updatedAt := now j\<rparr>
                        else l) (links state)
      in state\<lparr>links := updatedLinks,
               localStorage := setItem_LINKS updatedLinks (localStorage state)\<rparr>)"

text \<open>
  \<^verbatim>\<open>deleteLink\<close> reads the clock for \<^verbatim>\<open>deletedAt\<close> and again for \<^verbatim>\<open>updatedAt\<close>: \<open>now j\<close> is
  that pair of readings.
\<close>

definition deleteLink ::
    "(nat \<Rightarrow> timestamp \<times> timestamp) \<Rightarrow> string \<Rightarrow> appState \<Rightarrow> appState" where
  "deleteLink now i state =
     (let updatedLinks =
            mapi (\<lambda>j l. if link_id l = i
                        then l\<lparr>deletedAt := Some (fst (now j)), link_updatedAt := snd (now j)\<rparr>
                        else l) (links state)
      in state\<lparr>links := updatedLinks,
               localStorage := setItem_LINKS updatedLinks (localStorage state)\<rparr>)"

definition restoreLink :: "(nat \<Rightarrow> timestamp) \<Rightarrow> string \<Rightarrow> appState \<Rightarrow> appState" where
  "restoreLink now i state =
     (let updatedLinks =
            mapi (\<lambda>j l. if link_id l = i
                        then l\<lparr>deletedAt := None, link_updatedAt := now j\<rparr>
                        else l) (links state)
      in state\<lparr>links := updatedLinks,
               localStorage := setItem_LINKS updatedLinks (localStorage state)\<rparr>)"

definition permanentlyDeleteLink :: "string \<Rightarrow> appState \<Rightarrow> appState" where
  "permanentlyDeleteLink i state =
     (let updatedLinks = filter (\<lambda>l. link_id l \<noteq> i) (links state)
      in state\<lparr>links := updatedLinks,
               localStorage := setItem_LINKS updatedLinks (localStorage state)\<rparr>)"

definition toggleFavorite :: "(nat \<Rightarrow> timestamp) \<Rightarrow> string \<Rightarrow> appState \<Rightarrow> appState" where
  "toggleFavorite now i state =
     (let updatedLinks =
            mapi (\<lambda>j l. if link_id l = i
                        then l\<lparr>isFavorite := \<not> isFavorite l, link_updatedAt := now j\<rparr>
                        else l) (links state)
      in state\<lparr>links := updatedLinks,
               localStorage := setItem_LINKS updatedLinks (localStorage state)\<rparr>)"

subsection \<open>Folder actions\<close>

definition addFolder :: "string \<Rightarrow> timestamp \<Rightarrow> timestamp \<Rightarrow> folderData \<Rightarrow> appState \<Rightarrow> appState" where
  "addFolder uuid now1 now2 folderData state =
     (let newFolder =
            \<lparr>folder_id = uuid,
             name = fd_name folderData,
             folder_description = fd_description folderData,
             color = fd_color folderData,
             icon = fd_icon folderData,
             parentId = fd_parentId folderData,
             isPlatformFolder = fd_isPlatformFolder folderData,
             folder_platform = fd_platform folderData,
             folder_createdAt = now1,
             folder_updatedAt = now2\<rparr>;
          updatedFolders = folders state @ [newFolder]
      in state\<lparr>folders := updatedFolders,
               localStorage := setItem_FOLDERS updatedFolders (localStorage state)\<rparr>)"

definition updateFolder ::
    "(nat \<Rightarrow> timestamp) \<Rightarrow> string \<Rightarrow> folder_partial \<Rightarrow> appState \<Rightarrow> appState" where
  "updateFolder now i updates state =
     (let updatedFolders =
            mapi (\<lambda>j f. if folder_id f = i
                        then (spread_folder f updates)\<lparr>folder_updatedAt := now j\<rparr>
                        else f) (folders state)
      in state\<lparr>folders := updatedFolders,
               localStorage := setItem_FOLDERS updatedFolders (localStorage state)\<rparr>)"

definition deleteFolder :: "string \<Rightarrow> appState \<Rightarrow> appState" where
  "deleteFolder i state =
     (let updatedFolders = filter (\<lambda>f. folder_id f \<noteq> i) (folders state)
      in state\<lparr>folders := updatedFolders,
               localStorage := setItem_FOLDERS updatedFolders (localStorage state)\<rparr>)"

definition setEditingFolder :: "string option \<Rightarrow> appState \<Rightarrow> appState" where
  "setEditingFolder folderId' state = state\<lparr>editingFolderId := folderId'\<rparr>"

definition setParentFolder :: "string option \<Rightarrow> appState \<Rightarrow> appState" where
  "setParentFolder folderId' state = state\<lparr>parentFolderId := folderId'\<rparr>"

definition setCreateFolderModalOpen :: "bool \<Rightarrow> appState \<Rightarrow> appState" where
  "setCreateFolderModalOpen isOpen state = state\<lparr>isCreateFolderModalOpen := isOpen\<rparr>"

subsection \<open>Data management: loadFromStorage\<close>

text \<open>
  \<^verbatim>\<open>constants/folder-icons\<close> is not among the sources: the list \<^verbatim>\<open>PLATFORM_FOLDERS\<close> and the
  list \<^verbatim>\<open>FOLDER_ICONS\<close> are parameters of the functions that read them. An entry of
  \<^verbatim>\<open>PLATFORM_FOLDERS\<close> has the four fields \<^verbatim>\<open>loadFromStorage\<close> reads.
\<close>

record platformFolder =
  pf_name :: string
  pf_color :: string
  pf_iconName :: string
  pf_platform :: platform

record folderIcon =
  fi_name :: string
  fi_color :: string

text \<open>The decimal rendering of a number inside a template literal.\<close>

definition digit :: "nat \<Rightarrow> char" where
  "digit d =
     (if d = 0 then CHR ''0'' else if d = 1 then CHR ''1'' else if d = 2 then CHR ''2''
      else if d = 3 then CHR ''3'' else if d = 4 then CHR ''4'' else if d = 5 then CHR ''5''
      else if d = 6 then CHR ''6'' else if d = 7 then CHR ''7'' else if d = 8 then CHR ''8''
      else CHR ''9'')"

fun string_of_nat :: "nat \<Rightarrow> string" where
  "string_of_nat n =
     (if n < 10 then [digit n] else string_of_nat (n div 10) @ [digit (n mod 10)])"

declare string_of_nat.simps [simp del]

text \<open>
  For the folder at \<open>index\<close> the source reads \<^verbatim>\<open>Date.now()\<close> for the identifier and then
  \<^verbatim>\<open>new Date().toISOString()\<close> twice; \<open>clock index\<close> is that triple of readings.
\<close>

definition platform_folder ::
    "(nat \<Rightarrow> nat \<times> timestamp \<times> timestamp) \<Rightarrow> nat \<Rightarrow> platformFolder \<Rightarrow> folder" where
  "platform_folder clock index pf =
     (case clock index of (ms, now1, now2) \<Rightarrow>
        \<lparr>folder_id = ''platform-folder-'' @ string_of_nat index @ ''-'' @ string_of_nat ms,
         name = pf_name pf,
         folder_description = Some [],
         color = pf_color pf,
         icon = pf_iconName pf,
         parentId = None,
         isPlatformFolder = True,
         folder_platform = Some (pf_platform pf),
         folder_createdAt = now1,
         folder_updatedAt = now2\<rparr>)"

definition loadFromStorage ::
    "platformFolder list \<Rightarrow> (nat \<Rightarrow> nat \<times> timestamp \<times> timestamp) \<Rightarrow> appState \<Rightarrow> appState" where
  "loadFromStorage PLATFORM_FOLDERS clock state =
     (let links' = (case stored_links (localStorage state) of None \<Rightarrow> [] | Some v \<Rightarrow> v);
          folders0 = (case stored_folders (localStorage state) of None \<Rightarrow> [] | Some v \<Rightarrow> v);
          settings' = (case stored_settings (localStorage state) of
                         None \<Rightarrow> DEFAULT_SETTINGS | Some v \<Rightarrow> v)
      in if length folders0 = 0
         then (let folders' = mapi (platform_folder clock) PLATFORM_FOLDERS
               in state\<lparr>links := links', folders := folders', settings := settings',
                        isHydrated := True,
                        localStorage := setItem_FOLDERS folders' (localStorage state)\<rparr>)
         else state\<lparr>links := links', folders := folders0, settings := settings',
                    isHydrated := True\<rparr>)"

text \<open>The store before \<^verbatim>\<open>loadFromStorage\<close> has run: the initial state of \<^verbatim>\<open>create\<close>.\<close>

definition initialState :: "storage \<Rightarrow> appState" where
  "initialState st =
     \<lparr>links = [], folders = [], settings = DEFAULT_SETTINGS, isHydrated = False,
      isCreateFolderModalOpen = False, editingFolderId = None, parentFolderId = None,
      localStorage = st\<rparr>"

definition emptyStorage :: storage where
  "emptyStorage = \<lparr>stored_links = None, stored_folders = None, stored_settings = None\<rparr>"

section \<open>Folder hierarchy utilities\<close>

text \<open>
  Modelled from the spec: \<^verbatim>\<open>utils/folder-utils\<close> is not among the sources. The spec gives
  \<^verbatim>\<open>getSubFolderCount(parentId, folders)\<close> as the count of folders whose \<^verbatim>\<open>parentId\<close> is the
  given one, and \<^verbatim>\<open>canAddSubFolder\<close> as that count being below
  \<^verbatim>\<open>MAX_SUB_FOLDERS_PER_FOLDER\<close>, a configured limit of 10.
\<close>

definition MAX_SUB_FOLDERS_PER_FOLDER :: nat where
  "MAX_SUB_FOLDERS_PER_FOLDER = 10"

definition getSubFolderCount :: "string \<Rightarrow> folder list \<Rightarrow> nat" where
  "getSubFolderCount p fs = length (filter (\<lambda>f. parentId f = Some p) fs)"

definition canAddSubFolder :: "string \<Rightarrow> folder list \<Rightarrow> bool" where
  "canAddSubFolder p fs \<longleftrightarrow> getSubFolderCount p fs < MAX_SUB_FOLDERS_PER_FOLDER"

section \<open>Creating and editing folders (components/modals/create-folder-modal.tsx)\<close>

text \<open>A \<^verbatim>\<open>string | null\<close> used as a condition: null and the empty string are falsy.\<close>

definition truthy :: "string option \<Rightarrow> bool" where
  "truthy v = (case v of None \<Rightarrow> False | Some x \<Rightarrow> x \<noteq> [])"

record folderFormData =
  form_name :: string
  form_iconName :: string

datatype submitToast =
  CannotCreateSubFolder | MaximumSubFoldersReached nat | FolderUpdated
  | SubFolderCreated | FolderCreated

definition handleClose :: "appState \<Rightarrow> appState" where
  "handleClose state =
     setCreateFolderModalOpen False (setParentFolder None (setEditingFolder None state))"

definition editingFolder :: "appState \<Rightarrow> folder option" where
  "editingFolder state =
     (case editingFolderId state of
        None \<Rightarrow> None
      | Some e \<Rightarrow> if e \<noteq> [] then find (\<lambda>f. folder_id f = e) (folders state) else None)"

definition folder_color :: "folderIcon list \<Rightarrow> string \<Rightarrow> string" where
  "folder_color FOLDER_ICONS iconName =
     (case find (\<lambda>ic. fi_name ic = iconName) FOLDER_ICONS of
        None \<Rightarrow> ''#F59E0B''
      | Some iconOption \<Rightarrow> if fi_color iconOption \<noteq> [] then fi_color iconOption else ''#F59E0B'')"

text \<open>
  \<^verbatim>\<open>onSubmit\<close>. In create mode with a truthy \<^verbatim>\<open>parentFolderId\<close> the two creation-time checks
  run first: the parent found by \<^verbatim>\<open>folders.find\<close> must have \<^verbatim>\<open>parentId === null\<close> (a parent
  that is not found fails the check, \<^verbatim>\<open>undefined !== null\<close>), and the parent must still
  accept a sub-folder. A rejected submit returns before \<^verbatim>\<open>handleClose\<close>. The create
  branch draws \<open>uuid\<close> and reads the clock twice, \<open>now1\<close> and \<open>now2\<close>; the edit branch reads
  it as \<^verbatim>\<open>updateFolder\<close> does, \<open>now\<close>.
\<close>

definition onSubmit ::
    "folderIcon list \<Rightarrow> string \<Rightarrow> timestamp \<Rightarrow> timestamp \<Rightarrow> (nat \<Rightarrow> timestamp)
       \<Rightarrow> folderFormData \<Rightarrow> appState \<Rightarrow> appState \<times> submitToast" where
  "onSubmit FOLDER_ICONS uuid now1 now2 now data state =
     (let isEditMode = (editingFolder state \<noteq> None);
          parent = (case parentFolderId state of
                      None \<Rightarrow> None
                    | Some p \<Rightarrow> find (\<lambda>f. folder_id f = p) (folders state));
          color' = folder_color FOLDER_ICONS (form_iconName data)
      in if \<not> isEditMode \<and> truthy (parentFolderId state)
            \<and> (case parent of None \<Rightarrow> True | Some pa \<Rightarrow> parentId pa \<noteq> None)
         then (state, CannotCreateSubFolder)
         else if \<not> isEditMode \<and> truthy (parentFolderId state)
            \<and> (case parentFolderId state of
                  None \<Rightarrow> False
                | Some p \<Rightarrow> \<not> canAddSubFolder p (folders state))
         then (state,
               MaximumSubFoldersReached
                 (case parentFolderId state of
                    None \<Rightarrow> 0 | Some p \<Rightarrow> getSubFolderCount p (folders state)))
         else (case editingFolder state of
                 Some ef \<Rightarrow>
                   (handleClose
                      (updateFolder now (folder_id ef)
                         (no_folder_updates\<lparr>fp_name := Some (form_name data),
                            fp_icon := Some (form_iconName data),
                            fp_color := Some color'\<rparr>) state),
                    FolderUpdated)
               | None \<Rightarrow>
                   (handleClose
                      (addFolder uuid now1 now2
                         \<lparr>fd_name = form_name data, fd_description = Some [],
                          fd_color = color', fd_icon = form_iconName data,
                          fd_parentId = parentFolderId state, fd_isPlatformFolder = False,
                          fd_platform = None\<rparr> state),
                    if truthy (parentFolderId state) then SubFolderCreated else FolderCreated)))"

section \<open>Bulk actions (components/common/bulk-action-bar.tsx)\<close>

text \<open>
  A handler's visible outcome: the store after it, the toast it shows (with the count the
  toast's description prints) and whether it called \<^verbatim>\<open>onClearSelection\<close>.
\<close>

datatype toast =
  AddedToFavorites nat | RemovedFromFavorites nat | ItemsDeleted nat | ItemsMoved nat

fun toast_count :: "toast \<Rightarrow> nat" where
  "toast_count (AddedToFavorites n) = n"
| "toast_count (RemovedFromFavorites n) = n"
| "toast_count (ItemsDeleted n) = n"
| "toast_count (ItemsMoved n) = n"

record bulkOutcome =
  outcome_state :: appState
  shown_toast :: "toast option"
  selection_cleared :: bool

text \<open>\<^verbatim>\<open>links.filter(link => selectedIds.includes(link.id))\<close>, in collection order.\<close>

definition selectedLinks :: "string list \<Rightarrow> link list \<Rightarrow> link list" where
  "selectedLinks selectedIds ls = filter (\<lambda>l. link_id l \<in> set selectedIds) ls"

text \<open>
  \<^verbatim>\<open>selectedIds.forEach(id => updateLink(id, updates))\<close>: the call for the \<open>k\<close>-th
  identifier reads the clock as \<open>clock k\<close> says.
\<close>

fun forEach_updateLink ::
    "(nat \<Rightarrow> nat \<Rightarrow> timestamp) \<Rightarrow> nat \<Rightarrow> string list \<Rightarrow> link_partial \<Rightarrow> appState
       \<Rightarrow> appState" where
  "forEach_updateLink clock k [] updates state = state"
| "forEach_updateLink clock k (i # ids) updates state =
     forEach_updateLink clock (Suc k) ids updates (updateLink (clock k) i updates state)"

fun forEach_deleteLink ::
    "(nat \<Rightarrow> nat \<Rightarrow> timestamp \<times> timestamp) \<Rightarrow> nat \<Rightarrow> string list \<Rightarrow> appState
       \<Rightarrow> appState" where
  "forEach_deleteLink clock k [] state = state"
| "forEach_deleteLink clock k (i # ids) state =
     forEach_deleteLink clock (Suc k) ids (deleteLink (clock k) i state)"

definition hasMixedStates :: "link list \<Rightarrow> bool" where
  "hasMixedStates sel \<longleftrightarrow> list_ex isFavorite sel \<and> list_ex (\<lambda>l. \<not> isFavorite l) sel"

text \<open>\<^verbatim>\<open>!selectedLinks[0]?.isFavorite\<close> is true when no selected link exists.\<close>

definition shouldFavorite :: "link list \<Rightarrow> bool" where
  "shouldFavorite sel =
     (if hasMixedStates sel then True
      else (case sel of [] \<Rightarrow> True | l # _ \<Rightarrow> \<not> isFavorite l))"

definition handleBulkFavorite ::
    "(nat \<Rightarrow> nat \<Rightarrow> timestamp) \<Rightarrow> string list \<Rightarrow> appState \<Rightarrow> bulkOutcome" where
  "handleBulkFavorite clock selectedIds state =
     (let fav = shouldFavorite (selectedLinks selectedIds (links state))
      in \<lparr>outcome_state =
            forEach_updateLink clock 0 selectedIds
              (no_link_updates\<lparr>lp_isFavorite := Some fav\<rparr>) state,
          shown_toast =
            Some (if fav then AddedToFavorites (length selectedIds)
                  else RemovedFromFavorites (length selectedIds)),
          selection_cleared = False\<rparr>)"

text \<open>
  \<^verbatim>\<open>handleConfirmDelete\<close>, run once the delete dialog is confirmed. Nothing in its
  \<^verbatim>\<open>try\<close> block fails in this model, so the \<^verbatim>\<open>catch\<close> branch has no counterpart.
\<close>

definition handleConfirmDelete ::
    "(nat \<Rightarrow> nat \<Rightarrow> timestamp \<times> timestamp) \<Rightarrow> string list \<Rightarrow> appState \<Rightarrow> bulkOutcome" where
  "handleConfirmDelete clock selectedIds state =
     \<lparr>outcome_state = forEach_deleteLink clock 0 selectedIds state,
      shown_toast = Some (ItemsDeleted (length selectedIds)),
      selection_cleared = True\<rparr>"

definition handleMoveComplete :: "nat \<Rightarrow> toast option \<times> bool" where
  "handleMoveComplete movedCount =
     (if movedCount > 0 then (Some (ItemsMoved movedCount), True) else (None, False))"

text \<open>
  The number of links a bulk action changed: the positions at which the collection after the
  action differs from the collection before it.
\<close>

definition changed_count :: "link list \<Rightarrow> link list \<Rightarrow> nat" where
  "changed_count before after = length (filter (\<lambda>(b, a). b \<noteq> a) (zip before after))"

section \<open>Bulk move (components/modals/bulk-move-modal.tsx)\<close>

text \<open>
  The loop of \<^verbatim>\<open>handleMove\<close>. Each identifier is looked up in \<open>snapshot\<close>, the links the
  component rendered with; a link that is found and is not yet in the target folder is
  re-written through \<^verbatim>\<open>updateLink\<close> and counted. The call number \<open>movedCount\<close> reads the
  clock as \<open>clock movedCount\<close> says.
\<close>

fun move_loop ::
    "(nat \<Rightarrow> nat \<Rightarrow> timestamp) \<Rightarrow> link list \<Rightarrow> string \<Rightarrow> string list \<Rightarrow> appState \<Rightarrow> nat
       \<Rightarrow> appState \<times> nat" where
  "move_loop clock snapshot target [] state movedCount = (state, movedCount)"
| "move_loop clock snapshot target (i # ids) state movedCount =
     (case find (\<lambda>l. link_id l = i) snapshot of
        None \<Rightarrow> move_loop clock snapshot target ids state movedCount
      | Some l \<Rightarrow>
          if folderId l \<noteq> Some target
          then move_loop clock snapshot target ids
                 (updateLink (clock movedCount) i
                    (no_link_updates\<lparr>lp_folderId := Some (Some target)\<rparr>) state)
                 (Suc movedCount)
          else move_loop clock snapshot target ids state movedCount)"

text \<open>
  \<^verbatim>\<open>handleMove\<close>: \<open>proceed\<close> is the user's answer to \<^verbatim>\<open>window.confirm\<close>, read only when
  the question is asked. \<open>onComplete_arg\<close> is the count passed to \<^verbatim>\<open>onComplete\<close>, or
  \<open>None\<close> when the handler returned without calling it.
\<close>

record moveOutcome =
  move_state :: appState
  confirm_asked :: bool
  onComplete_arg :: "nat option"

definition handleMove ::
    "(nat \<Rightarrow> nat \<Rightarrow> timestamp) \<Rightarrow> bool \<Rightarrow> string option \<Rightarrow> string list \<Rightarrow> appState
       \<Rightarrow> moveOutcome" where
  "handleMove clock proceed selectedFolderId selectedIds state =
     (case selectedFolderId of
        None \<Rightarrow> \<lparr>move_state = state, confirm_asked = False, onComplete_arg = None\<rparr>
      | Some target \<Rightarrow>
          if target = [] then \<lparr>move_state = state, confirm_asked = False, onComplete_arg = None\<rparr>
          else
            (let alreadyInFolder =
                   filter (\<lambda>l. folderId l = Some target) (selectedLinks selectedIds (links state))
             in if length alreadyInFolder > 0 \<and> \<not> proceed
                then \<lparr>move_state = state, confirm_asked = True, onComplete_arg = None\<rparr>
                else (case move_loop clock (links state) target selectedIds state 0 of
                        (state', movedCount) \<Rightarrow>
                          \<lparr>move_state = state',
                           confirm_asked = (length alreadyInFolder > 0),
                           onComplete_arg = Some movedCount\<rparr>)))"

text \<open>The modal as the bar mounts it, with \<^verbatim>\<open>onComplete={handleMoveComplete}\<close>.\<close>

definition bulkMove ::
    "(nat \<Rightarrow> nat \<Rightarrow> timestamp) \<Rightarrow> bool \<Rightarrow> string option \<Rightarrow> string list \<Rightarrow> appState
       \<Rightarrow> bulkOutcome" where
  "bulkMove clock proceed selectedFolderId selectedIds state =
     (let r = handleMove clock proceed selectedFolderId selectedIds state
      in (case onComplete_arg r of
            None \<Rightarrow> \<lparr>outcome_state = move_state r, shown_toast = None, selection_cleared = False\<rparr>
          | Some movedCount \<Rightarrow>
              \<lparr>outcome_state = move_state r,
               shown_toast = fst (handleMoveComplete movedCount),
               selection_cleared = snd (handleMoveComplete movedCount)\<rparr>))"

text \<open>
  Whether the loop of \<^verbatim>\<open>handleMove\<close> re-writes the links with identifier \<open>i\<close>: the first link
  of the snapshot with that identifier exists and is not in the target folder.
\<close>

definition moved_id :: "link list \<Rightarrow> string \<Rightarrow> string \<Rightarrow> bool" where
  "moved_id snapshot target i =
     (case find (\<lambda>l. link_id l = i) snapshot of
        None \<Rightarrow> False
      | Some l \<Rightarrow> folderId l \<noteq> Some target)"

section \<open>The folder hierarchy as a property of the store\<close>

text \<open>
  The two-level property as the data model words it: every folder with a parent references a
  folder of the collection that has no parent. The second predicate drops the presence: the
  folders a parent reference names, if any are in the collection, have no parent.
\<close>

definition two_level :: "folder list \<Rightarrow> bool" where
  "two_level fs =
     list_all (\<lambda>F. case parentId F of
                      None \<Rightarrow> True
                    | Some p \<Rightarrow> list_ex (\<lambda>G. folder_id G = p \<and> parentId G = None) fs) fs"

definition two_level_where_present :: "folder list \<Rightarrow> bool" where
  "two_level_where_present fs =
     list_all (\<lambda>F. case parentId F of
                      None \<Rightarrow> True
                    | Some p \<Rightarrow> list_all (\<lambda>G. folder_id G = p \<longrightarrow> parentId G = None) fs) fs"

text \<open>
  The stores the application reaches: the first load on a storage without folders, and from
  there reloads, the folder form, folder updates that leave \<^verbatim>\<open>id\<close> and \<^verbatim>\<open>parentId\<close> alone,
  folder deletion and the link actions. An identifier drawn for a new folder is non-empty and
  not in use in the collection, as an identifier or as a parent reference.
\<close>

inductive reachable :: "platformFolder list \<Rightarrow> folderIcon list \<Rightarrow> appState \<Rightarrow> bool"
  for PLATFORM_FOLDERS :: "platformFolder list" and FOLDER_ICONS :: "folderIcon list" where
  first_load:
    "stored_folders st = None \<or> stored_folders st = Some [] \<Longrightarrow>
     reachable PLATFORM_FOLDERS FOLDER_ICONS
       (loadFromStorage PLATFORM_FOLDERS clock (initialState st))"
| reload:
    "reachable PLATFORM_FOLDERS FOLDER_ICONS s \<Longrightarrow>
     reachable PLATFORM_FOLDERS FOLDER_ICONS (loadFromStorage PLATFORM_FOLDERS clock s)"
| set_editing:
    "reachable PLATFORM_FOLDERS FOLDER_ICONS s \<Longrightarrow>
     reachable PLATFORM_FOLDERS FOLDER_ICONS (setEditingFolder e s)"
| set_parent:
    "reachable PLATFORM_FOLDERS FOLDER_ICONS s \<Longrightarrow>
     reachable PLATFORM_FOLDERS FOLDER_ICONS (setParentFolder p s)"
| set_modal:
    "reachable PLATFORM_FOLDERS FOLDER_ICONS s \<Longrightarrow>
     reachable PLATFORM_FOLDERS FOLDER_ICONS (setCreateFolderModalOpen b s)"
| submit:
    "reachable PLATFORM_FOLDERS FOLDER_ICONS s \<Longrightarrow>
     uuid \<noteq> [] \<Longrightarrow> uuid \<notin> folder_id ` set (folders s) \<Longrightarrow>
     Some uuid \<notin> parentId ` set (folders s) \<Longrightarrow>
     reachable PLATFORM_FOLDERS FOLDER_ICONS
       (fst (onSubmit FOLDER_ICONS uuid now1 now2 now form s))"
| update_folder:
    "reachable PLATFORM_FOLDERS FOLDER_ICONS s \<Longrightarrow>
     fp_id updates = None \<Longrightarrow> fp_parentId updates = None \<Longrightarrow>
     reachable PLATFORM_FOLDERS FOLDER_ICONS (updateFolder now i updates s)"
| delete_folder:
    "reachable PLATFORM_FOLDERS FOLDER_ICONS s \<Longrightarrow>
     reachable PLATFORM_FOLDERS FOLDER_ICONS (deleteFolder i s)"
| add_link:
    "reachable PLATFORM_FOLDERS FOLDER_ICONS s \<Longrightarrow>
     reachable PLATFORM_FOLDERS FOLDER_ICONS (addLink uuid now1 now2 d s)"
| update_link:
    "reachable PLATFORM_FOLDERS FOLDER_ICONS s \<Longrightarrow>
     reachable PLATFORM_FOLDERS FOLDER_ICONS (updateLink now i lu s)"
| delete_link:
    "reachable PLATFORM_FOLDERS FOLDER_ICONS s \<Longrightarrow>
     reachable PLATFORM_FOLDERS FOLDER_ICONS (deleteLink now i s)"
| restore_link:
    "reachable PLATFORM_FOLDERS FOLDER_ICONS s \<Longrightarrow>
     reachable PLATFORM_FOLDERS FOLDER_ICONS (restoreLink now i s)"
| permanently_delete_link:
    "reachable PLATFORM_FOLDERS FOLDER_ICONS s \<Longrightarrow>
     reachable PLATFORM_FOLDERS FOLDER_ICONS (permanentlyDeleteLink i s)"
| toggle_favorite:
    "reachable PLATFORM_FOLDERS FOLDER_ICONS s \<Longrightarrow>
     reachable PLATFORM_FOLDERS FOLDER_ICONS (toggleFavorite now i s)"

text \<open>The identifier and parent reference of every folder: all the hierarchy depends on.\<close>

definition folder_shape :: "folder list \<Rightarrow> (string \<times> string option) set" where
  "folder_shape fs = (\<lambda>f. (folder_id f, parentId f)) ` set fs"

text \<open>
  What the store keeps true of the shapes: a folder with a parent is nobody's parent, folders
  sharing an identifier are all roots or all sub-folders, and no identifier is empty.
\<close>

definition hierarchy_ok :: "(string \<times> string option) set \<Rightarrow> bool" where
  "hierarchy_ok K \<longleftrightarrow>
     (\<forall>i p j q. (i, p) \<in> K \<longrightarrow> (j, q) \<in> K \<longrightarrow> q \<noteq> None \<longrightarrow> p \<noteq> Some j)
     \<and> (\<forall>i p q. (i, p) \<in> K \<longrightarrow> (i, q) \<in> K \<longrightarrow> (p = None \<longleftrightarrow> q = None))
     \<and> (\<forall>p. ([], p) \<notin> K)"

definition store_ok :: "appState \<Rightarrow> bool" where
  "store_ok s \<longleftrightarrow>
     hierarchy_ok (folder_shape (folders s))
     \<and> stored_folders (localStorage s) = Some (folders s)"

section \<open>Example values\<close>

text \<open>
  Stores of two and three links, clocks that give one reading at every position, a table of
  platform folders with one entry per platform (names, colours and icons as in
  \<^verbatim>\<open>PLATFORM_CONFIG\<close> of constants/index.ts), and the stores reached from the first load by
  creating a sub-folder under the first platform folder and then deleting that folder, or
  moving the second platform folder under the sub-folder.
\<close>

definition example_t0 :: timestamp where
  "example_t0 = ''2025-10-18T09:00:00.000Z''"

definition example_t1 :: timestamp where
  "example_t1 = ''2025-10-18T09:00:00.001Z''"

definition example_t2 :: timestamp where
  "example_t2 = ''2025-10-19T12:30:00.000Z''"

definition example_t9 :: timestamp where
  "example_t9 = ''2031-01-01T00:00:00.000Z''"

definition example_link_a :: link where
  "example_link_a =
     \<lparr>link_id = ''a'', url = ''https://github.com/x/y'', title = ''Repo'',
      link_description = [], thumbnail = [], link_platform = github, folderId = None,
      isFavorite = False, deletedAt = None,
      link_createdAt = example_t0, link_updatedAt = example_t0\<rparr>"

definition example_link_b :: link where
  "example_link_b =
     \<lparr>link_id = ''b'', url = ''https://youtu.be/z'', title = ''Video'',
      link_description = [], thumbnail = [], link_platform = youtube, folderId = Some ''f1'',
      isFavorite = True, deletedAt = None,
      link_createdAt = example_t0, link_updatedAt = example_t1\<rparr>"

definition example_store :: appState where
  "example_store =
     (initialState emptyStorage)\<lparr>links := [example_link_a, example_link_b], isHydrated := True\<rparr>"

definition example_linkData :: linkData where
  "example_linkData =
     \<lparr>ld_url = ''https://medium.com/p'', ld_title = ''Post'', ld_description = [],
      ld_thumbnail = [], ld_platform = medium, ld_folderId = None, ld_isFavorite = False\<rparr>"

definition example_link_c :: link where
  "example_link_c =
     \<lparr>link_id = ''c'', url = ''https://reddit.com/r/x'', title = ''Thread'',
      link_description = [], thumbnail = [], link_platform = reddit, folderId = None,
      isFavorite = True, deletedAt = None,
      link_createdAt = example_t1, link_updatedAt = example_t1\<rparr>"


definition example_clock :: "nat \<Rightarrow> nat \<Rightarrow> timestamp" where
  "example_clock k j = example_t2"

definition example_clock2 :: "nat \<Rightarrow> nat \<Rightarrow> timestamp \<times> timestamp" where
  "example_clock2 k j = (example_t2, example_t2)"

definition example_at_t1 :: "nat \<Rightarrow> timestamp" where
  "example_at_t1 j = example_t1"

definition example_at_t2 :: "nat \<Rightarrow> timestamp" where
  "example_at_t2 j = example_t2"

definition example_at_t1_t1 :: "nat \<Rightarrow> timestamp \<times> timestamp" where
  "example_at_t1_t1 j = (example_t1, example_t1)"

definition example_at_t2_t2 :: "nat \<Rightarrow> timestamp \<times> timestamp" where
  "example_at_t2_t2 j = (example_t2, example_t2)"

definition example_PLATFORM_FOLDERS :: "platformFolder list" where
  "example_PLATFORM_FOLDERS =
     [\<lparr>pf_name = ''YouTube'', pf_color = ''#FF0000'', pf_iconName = ''Youtube'', pf_platform = youtube\<rparr>,
      \<lparr>pf_name = ''Twitter'', pf_color = ''#1DA1F2'', pf_iconName = ''Twitter'', pf_platform = twitter\<rparr>,
      \<lparr>pf_name = ''Instagram'', pf_color = ''#E4405F'', pf_iconName = ''Instagram'', pf_platform = instagram\<rparr>,
      \<lparr>pf_name = ''LinkedIn'', pf_color = ''#0077B5'', pf_iconName = ''Linkedin'', pf_platform = linkedin\<rparr>,
      \<lparr>pf_name = ''TikTok'', pf_color = ''#000000'', pf_iconName = ''Music'', pf_platform = tiktok\<rparr>,
      \<lparr>pf_name = ''GitHub'', pf_color = ''#181717'', pf_iconName = ''Github'', pf_platform = github\<rparr>,
      \<lparr>pf_name = ''Medium'', pf_color = ''#00AB6C'', pf_iconName = ''BookOpen'', pf_platform = medium\<rparr>,
      \<lparr>pf_name = ''Reddit'', pf_color = ''#FF4500'', pf_iconName = ''MessageCircle'', pf_platform = reddit\<rparr>,
      \<lparr>pf_name = ''Facebook'', pf_color = ''#1877F2'', pf_iconName = ''Facebook'', pf_platform = facebook\<rparr>,
      \<lparr>pf_name = ''Other'', pf_color = ''#6B7280'', pf_iconName = ''Link'', pf_platform = other\<rparr>]"

definition example_load_clock :: "nat \<Rightarrow> nat \<times> timestamp \<times> timestamp" where
  "example_load_clock index = (1760778000000, example_t0, example_t0)"

definition example_FOLDER_ICONS :: "folderIcon list" where
  "example_FOLDER_ICONS =
     [\<lparr>fi_name = ''Folder'', fi_color = ''#F59E0B''\<rparr>, \<lparr>fi_name = ''Star'', fi_color = ''#EAB308''\<rparr>]"

definition example_form :: folderFormData where
  "example_form = \<lparr>form_name = ''Tutorials'', form_iconName = ''Folder''\<rparr>"

definition example_uuid :: string where
  "example_uuid = ''0b0e7a52-7c1d-4c58-9a45-5e8f6f1d2a10''"

definition example_loaded :: appState where
  "example_loaded =
     loadFromStorage example_PLATFORM_FOLDERS example_load_clock (initialState emptyStorage)"

definition example_with_sub :: appState where
  "example_with_sub =
     fst (onSubmit example_FOLDER_ICONS example_uuid example_t1 example_t1 example_at_t1 example_form
            (setParentFolder (Some ''platform-folder-0-1760778000000'') example_loaded))"

definition example_parent_deleted :: appState where
  "example_parent_deleted = deleteFolder ''platform-folder-0-1760778000000'' example_with_sub"

definition example_reparented :: appState where
  "example_reparented =
     updateFolder example_at_t2 ''platform-folder-1-1760778000000''
       (no_folder_updates\<lparr>fp_parentId := Some (Some example_uuid)\<rparr>) example_with_sub"

section \<open>Properties\<close>

subsection \<open>Auxiliary facts about the collection rewrites\<close>

lemma mapi_length [simp]: "length (mapi f xs) = length xs"
  by (simp add: mapi_def)

lemma mapi_nth: "j < length xs \<Longrightarrow> mapi f xs ! j = f j (xs ! j)"
  by (simp add: mapi_def nth_enumerate_eq)

lemma mapi_Nil: "mapi f [] = []"
  by (simp add: mapi_def)

lemma mapi_Cons: "mapi f (x # xs) = f 0 x # mapi (\<lambda>j. f (Suc j)) xs"
  by (simp add: mapi_def enumerate_Suc_eq split_beta comp_def)

lemma mapi_absent_id: "i \<notin> f ` set xs \<Longrightarrow> mapi (\<lambda>j l. if f l = i then g j l else l) xs = xs"
  by (rule nth_equalityI) (auto simp add: mapi_nth)

lemma filter_absent_id: "i \<notin> f ` set xs \<Longrightarrow> filter (\<lambda>l. f l \<noteq> i) xs = xs"
  by (induction xs) auto

lemma mapi_unchanged_iff:
  "mapi (\<lambda>j l. if P l then g j l else l) xs = xs
     \<longleftrightarrow> (\<forall>j<length xs. P (xs ! j) \<longrightarrow> g j (xs ! j) = xs ! j)"
  by (auto simp add: list_eq_iff_nth_eq mapi_nth)

lemma restamp_eq:
  "(l\<lparr>deletedAt := Some a, link_updatedAt := b\<rparr> = (l::link))
     \<longleftrightarrow> (deletedAt l = Some a \<and> link_updatedAt l = b)"
  by (cases l) auto

lemma restamp_twice:
  "mapi (\<lambda>j l. if link_id l = i
               then l\<lparr>deletedAt := Some (fst (c j)), link_updatedAt := snd (c j)\<rparr> else l)
     (mapi (\<lambda>j l. if link_id l = i
                  then l\<lparr>deletedAt := Some (fst (a j)), link_updatedAt := snd (a j)\<rparr> else l) xs)
   = mapi (\<lambda>j l. if link_id l = i
                 then l\<lparr>deletedAt := Some (fst (c j)), link_updatedAt := snd (c j)\<rparr> else l) xs"
  by (rule nth_equalityI) (simp_all add: mapi_nth)

lemma example_store_links: "links example_store = [example_link_a, example_link_b]"
  by (simp add: example_store_def)

lemma example_store_folders: "folders example_store = []"
  by (simp add: example_store_def initialState_def)

lemma example_ids:
  "link_id example_link_a = ''a''" "link_id example_link_b = ''b''" "link_id example_link_c = ''c''"
  by (simp_all add: example_link_a_def example_link_b_def example_link_c_def)

subsection \<open>Soft delete and restore\<close>

text \<open>
  C1. For a link \<open>L\<close> of the collection that is not in the trash, \<^verbatim>\<open>deleteLink(L.id)\<close>
  followed by \<^verbatim>\<open>restoreLink(L.id)\<close> keeps the collection's length and leaves at \<open>L\<close>'s
  position a link with \<^verbatim>\<open>deletedAt\<close> null whose identifier, url, title, description,
  thumbnail, platform, folder, favourite flag and creation stamp are those of \<open>L\<close>; only
  \<^verbatim>\<open>updatedAt\<close> differs, and it is the clock reading of the restore, which is not before
  the old value whenever the clock has not gone back behind it.
\<close>

theorem deleteLink_then_restoreLink:
  assumes "k < length (links s)" and "deletedAt (links s ! k) = None"
  shows "let L = links s ! k;
             s' = restoreLink now3 (link_id L) (deleteLink now12 (link_id L) s);
             L' = links s' ! k
         in length (links s') = length (links s)
          \<and> deletedAt L' = None
          \<and> link_id L' = link_id L \<and> url L' = url L \<and> title L' = title L
          \<and> link_description L' = link_description L \<and> thumbnail L' = thumbnail L
          \<and> link_platform L' = link_platform L \<and> folderId L' = folderId L
          \<and> isFavorite L' = isFavorite L \<and> link_createdAt L' = link_createdAt L
          \<and> link_updatedAt L' = now3 k
          \<and> L' = L\<lparr>link_updatedAt := now3 k\<rparr>
          \<and> (link_updatedAt L \<le> now3 k \<longrightarrow> link_updatedAt L \<le> link_updatedAt L')"
  using assms
  by (simp add: restoreLink_def deleteLink_def Let_def mapi_nth)

theorem deleteLink_then_restoreLink_witness:
  "0 < length (links example_store) \<and> deletedAt (links example_store ! 0) = None
   \<and> links (restoreLink example_at_t2 ''a'' (deleteLink example_at_t1_t1 ''a'' example_store)) ! 0
        = example_link_a\<lparr>link_updatedAt := example_t2\<rparr>
   \<and> link_updatedAt example_link_a \<le> example_t2"
  using deleteLink_then_restoreLink [of 0 example_store example_at_t2 example_at_t1_t1]
  by (simp add: example_store_links example_link_a_def Let_def example_t0_def example_t2_def
      example_at_t2_def)

text \<open>
  C3, as stated, fails: a second \<^verbatim>\<open>deleteLink\<close> on a link already in the trash stamps
  \<^verbatim>\<open>deletedAt\<close> and \<^verbatim>\<open>updatedAt\<close> again, so the collection changes once the clock has
  moved.
\<close>

theorem deleteLink_twice_counterexample:
  "links (deleteLink example_at_t2_t2 ''a'' (deleteLink example_at_t1_t1 ''a'' example_store))
     \<noteq> links (deleteLink example_at_t1_t1 ''a'' example_store)"
  by (simp add: deleteLink_def Let_def example_store_links example_link_a_def example_link_b_def
      mapi_Cons mapi_Nil example_at_t1_t1_def example_at_t2_t2_def example_t1_def example_t2_def)

text \<open>
  C3, amended. \<^verbatim>\<open>deleteLink\<close> applied twice gives what the later application alone gives:
  the link stays in the trash with every other field as it was, and \<^verbatim>\<open>deletedAt\<close> and
  \<^verbatim>\<open>updatedAt\<close> carry the later call's clock readings. A \<^verbatim>\<open>deleteLink\<close> leaves the
  collection unchanged exactly when every link with that identifier already carries the
  stamps the call would write.
\<close>

theorem deleteLink_restamps:
  "deleteLink later i (deleteLink earlier i s) = deleteLink later i s
   \<and> (links (deleteLink later i s) = links s
        \<longleftrightarrow> (\<forall>k<length (links s). link_id (links s ! k) = i \<longrightarrow>
               deletedAt (links s ! k) = Some (fst (later k))
               \<and> link_updatedAt (links s ! k) = snd (later k)))
   \<and> (\<forall>k<length (links s). link_id (links s ! k) = i \<longrightarrow>
         links (deleteLink later i (deleteLink earlier i s)) ! k
           = (links (deleteLink earlier i s) ! k)
               \<lparr>deletedAt := Some (fst (later k)), link_updatedAt := snd (later k)\<rparr>)"
proof (intro conjI)
  show "deleteLink later i (deleteLink earlier i s) = deleteLink later i s"
    by (simp add: deleteLink_def setItem_LINKS_def Let_def restamp_twice)
  show "links (deleteLink later i s) = links s
        \<longleftrightarrow> (\<forall>k<length (links s). link_id (links s ! k) = i \<longrightarrow>
               deletedAt (links s ! k) = Some (fst (later k))
               \<and> link_updatedAt (links s ! k) = snd (later k))"
    by (simp add: deleteLink_def Let_def mapi_unchanged_iff restamp_eq)
  show "\<forall>k<length (links s). link_id (links s ! k) = i \<longrightarrow>
         links (deleteLink later i (deleteLink earlier i s)) ! k
           = (links (deleteLink earlier i s) ! k)
               \<lparr>deletedAt := Some (fst (later k)), link_updatedAt := snd (later k)\<rparr>"
    by (simp add: deleteLink_def Let_def mapi_nth)
qed

theorem deleteLink_restamps_witness:
  "0 < length (links example_store) \<and> link_id (links example_store ! 0) = ''a''
   \<and> links (deleteLink example_at_t2_t2 ''a'' (deleteLink example_at_t1_t1 ''a'' example_store)) ! 0
        = example_link_a\<lparr>deletedAt := Some example_t2, link_updatedAt := example_t2\<rparr>"
  using deleteLink_restamps [of example_at_t2_t2 "''a''" example_at_t1_t1 example_store]
  by (simp add: example_store_links example_ids deleteLink_def Let_def mapi_nth example_at_t2_t2_def)

subsection \<open>Adding a link\<close>

text \<open>
  C2, as stated, fails: the two stamps of the new link are two readings of the clock and
  differ when it ticks between them, and the identifier is whatever the generator returns,
  which nothing compares with the identifiers already in the collection: a draw that repeats
  an earlier one gives two links the same identifier.
\<close>

theorem addLink_stamps_and_id_counterexample:
  "link_createdAt (last (links (addLink example_uuid example_t0 example_t1 example_linkData
                                  example_store)))
     \<noteq> link_updatedAt (last (links (addLink example_uuid example_t0 example_t1 example_linkData
                                      example_store)))
   \<and> link_id (last (links (addLink example_uuid example_t2 example_t2 example_linkData
                             (addLink example_uuid example_t1 example_t1 example_linkData
                                example_store))))
       \<in> link_id ` set (links (addLink example_uuid example_t1 example_t1 example_linkData
                                 example_store))"
  by (simp add: addLink_def Let_def example_store_links example_t0_def example_t1_def)

text \<open>
  C2, amended. \<^verbatim>\<open>addLink(data)\<close> appends exactly one link to the end of the collection and
  leaves the links before it as they were. The new link has \<^verbatim>\<open>deletedAt\<close> null, carries
  the drawn identifier, \<^verbatim>\<open>createdAt\<close> the first clock reading and \<^verbatim>\<open>updatedAt\<close> the
  second. The stamps are equal when the two readings are, and the identifier is fresh when the
  draw is not an identifier of the collection.
\<close>

theorem addLink_appends:
  "let s' = addLink uuid now1 now2 d s; n = last (links s')
   in links s' = links s @ [n]
    \<and> deletedAt n = None
    \<and> link_id n = uuid
    \<and> link_createdAt n = now1 \<and> link_updatedAt n = now2
    \<and> (now1 = now2 \<longrightarrow> link_createdAt n = link_updatedAt n)
    \<and> (uuid \<notin> link_id ` set (links s) \<longrightarrow> link_id n \<notin> link_id ` set (links s))"
  by (simp add: addLink_def Let_def)

theorem addLink_appends_witness:
  "example_uuid \<notin> link_id ` set (links example_store)
   \<and> links (addLink example_uuid example_t2 example_t2 example_linkData example_store)
        = [example_link_a, example_link_b,
           last (links (addLink example_uuid example_t2 example_t2 example_linkData
                          example_store))]
   \<and> link_createdAt (last (links (addLink example_uuid example_t2 example_t2 example_linkData
                                    example_store)))
       = link_updatedAt (last (links (addLink example_uuid example_t2 example_t2
                                       example_linkData example_store)))
   \<and> link_id (last (links (addLink example_uuid example_t2 example_t2 example_linkData
                             example_store)))
       \<notin> link_id ` set (links example_store)"
proof -
  have fresh: "example_uuid \<notin> link_id ` set (links example_store)"
    by (simp add: example_store_links example_ids example_uuid_def)
  show ?thesis
    using addLink_appends [of example_uuid example_t2 example_t2 example_linkData example_store]
      fresh
    by (simp add: Let_def example_store_links)
qed

subsection \<open>Unknown identifiers\<close>

text \<open>
  C8. When \<open>i\<close> is the identifier of no link and \<open>j\<close> the identifier of no folder,
  \<^verbatim>\<open>updateLink\<close>, \<^verbatim>\<open>deleteLink\<close>, \<^verbatim>\<open>restoreLink\<close>, \<^verbatim>\<open>toggleFavorite\<close> and
  \<^verbatim>\<open>permanentlyDeleteLink\<close> on \<open>i\<close>, and \<^verbatim>\<open>updateFolder\<close> and \<^verbatim>\<open>deleteFolder\<close> on \<open>j\<close>,
  return a store whose links and folders are those they were given. Every one of them is a
  total function: none has a failing branch.
\<close>

theorem unknown_id_is_noop:
  assumes "i \<notin> link_id ` set (links s)" and "j \<notin> folder_id ` set (folders s)"
  shows "links (updateLink now i lu s) = links s \<and> folders (updateLink now i lu s) = folders s
    \<and> links (updateFolder now j fu s) = links s \<and> folders (updateFolder now j fu s) = folders s
    \<and> links (deleteLink now' i s) = links s \<and> folders (deleteLink now' i s) = folders s
    \<and> links (restoreLink now i s) = links s \<and> folders (restoreLink now i s) = folders s
    \<and> links (toggleFavorite now i s) = links s \<and> folders (toggleFavorite now i s) = folders s
    \<and> links (permanentlyDeleteLink i s) = links s
    \<and> folders (permanentlyDeleteLink i s) = folders s
    \<and> links (deleteFolder j s) = links s \<and> folders (deleteFolder j s) = folders s"
  using assms
  by (simp add: updateLink_def updateFolder_def deleteLink_def restoreLink_def toggleFavorite_def
      permanentlyDeleteLink_def deleteFolder_def Let_def mapi_absent_id filter_absent_id)

theorem unknown_id_is_noop_witness:
  "''zz'' \<notin> link_id ` set (links example_store)
   \<and> ''zz'' \<notin> folder_id ` set (folders example_store)
   \<and> links (updateLink example_at_t2 ''zz'' (no_link_updates\<lparr>lp_title := Some ''New''\<rparr>) example_store)
        = [example_link_a, example_link_b]
   \<and> links (permanentlyDeleteLink ''zz'' example_store) = [example_link_a, example_link_b]
   \<and> folders (deleteFolder ''zz'' example_store) = []"
proof -
  have h1: "''zz'' \<notin> link_id ` set (links example_store)"
    by (simp add: example_store_links example_ids)
  have h2: "''zz'' \<notin> folder_id ` set (folders example_store)"
    by (simp add: example_store_folders)
  show ?thesis
    using unknown_id_is_noop [OF h1 h2, of example_at_t2
        "no_link_updates\<lparr>lp_title := Some ''New''\<rparr>" no_folder_updates example_at_t2_t2] h1 h2
    by (simp add: example_store_links example_store_folders)
qed

subsection \<open>The merge of updateLink\<close>

text \<open>
  C10. For a link with the identifier \<open>i\<close>, \<^verbatim>\<open>updateLink(i, partial)\<close> gives every field
  the value \<open>partial\<close> carries for it, also \<^verbatim>\<open>id\<close>, \<^verbatim>\<open>createdAt\<close> and \<^verbatim>\<open>deletedAt\<close>, keeps
  the fields \<open>partial\<close> does not mention, and then stamps \<^verbatim>\<open>updatedAt\<close> with the clock,
  whatever \<open>partial\<close> says of it. So some update changes a link's identifier, some its
  creation stamp, some puts a link into the trash, and some leaves a link whose
  \<^verbatim>\<open>updatedAt\<close> is before its \<^verbatim>\<open>createdAt\<close> although every stamp of the collection was in
  order and not after the clock.
\<close>

theorem updateLink_unrestricted_merge:
  "(\<forall>k<length (links s). link_id (links s ! k) = i \<longrightarrow>
      (let l = links s ! k; l' = links (updateLink now i u s) ! k
       in link_id l' = (case lp_id u of None \<Rightarrow> link_id l | Some v \<Rightarrow> v)
        \<and> url l' = (case lp_url u of None \<Rightarrow> url l | Some v \<Rightarrow> v)
        \<and> title l' = (case lp_title u of None \<Rightarrow> title l | Some v \<Rightarrow> v)
        \<and> link_description l'
            = (case lp_description u of None \<Rightarrow> link_description l | Some v \<Rightarrow> v)
        \<and> thumbnail l' = (case lp_thumbnail u of None \<Rightarrow> thumbnail l | Some v \<Rightarrow> v)
        \<and> link_platform l' = (case lp_platform u of None \<Rightarrow> link_platform l | Some v \<Rightarrow> v)
        \<and> folderId l' = (case lp_folderId u of None \<Rightarrow> folderId l | Some v \<Rightarrow> v)
        \<and> isFavorite l' = (case lp_isFavorite u of None \<Rightarrow> isFavorite l | Some v \<Rightarrow> v)
        \<and> deletedAt l' = (case lp_deletedAt u of None \<Rightarrow> deletedAt l | Some v \<Rightarrow> v)
        \<and> link_createdAt l'
            = (case lp_createdAt u of None \<Rightarrow> link_createdAt l | Some v \<Rightarrow> v)
        \<and> link_updatedAt l' = now k))
   \<and> (\<exists>s' i' u' now'. \<exists>k<length (links s'). link_id (links s' ! k) = i'
          \<and> link_id (links (updateLink now' i' u' s') ! k) \<noteq> i')
   \<and> (\<exists>s' i' u' now'. \<exists>k<length (links s'). link_id (links s' ! k) = i'
          \<and> link_createdAt (links (updateLink now' i' u' s') ! k)
               \<noteq> link_createdAt (links s' ! k))
   \<and> (\<exists>s' i' u' now'. \<exists>k<length (links s'). link_id (links s' ! k) = i'
          \<and> deletedAt (links s' ! k) = None
          \<and> deletedAt (links (updateLink now' i' u' s') ! k) \<noteq> None)
   \<and> (\<exists>s' i' u' now'.
          (\<forall>k<length (links s').
              link_createdAt (links s' ! k) \<le> link_updatedAt (links s' ! k)
              \<and> link_updatedAt (links s' ! k) \<le> now' k)
          \<and> (\<exists>k<length (links s').
                 link_updatedAt (links (updateLink now' i' u' s') ! k)
                   < link_createdAt (links (updateLink now' i' u' s') ! k)))"
proof (intro conjI)
  show "(\<forall>k<length (links s). link_id (links s ! k) = i \<longrightarrow>
      (let l = links s ! k; l' = links (updateLink now i u s) ! k
       in link_id l' = (case lp_id u of None \<Rightarrow> link_id l | Some v \<Rightarrow> v)
        \<and> url l' = (case lp_url u of None \<Rightarrow> url l | Some v \<Rightarrow> v)
        \<and> title l' = (case lp_title u of None \<Rightarrow> title l | Some v \<Rightarrow> v)
        \<and> link_description l'
            = (case lp_description u of None \<Rightarrow> link_description l | Some v \<Rightarrow> v)
        \<and> thumbnail l' = (case lp_thumbnail u of None \<Rightarrow> thumbnail l | Some v \<Rightarrow> v)
        \<and> link_platform l' = (case lp_platform u of None \<Rightarrow> link_platform l | Some v \<Rightarrow> v)
        \<and> folderId l' = (case lp_folderId u of None \<Rightarrow> folderId l | Some v \<Rightarrow> v)
        \<and> isFavorite l' = (case lp_isFavorite u of None \<Rightarrow> isFavorite l | Some v \<Rightarrow> v)
        \<and> deletedAt l' = (case lp_deletedAt u of None \<Rightarrow> deletedAt l | Some v \<Rightarrow> v)
        \<and> link_createdAt l'
            = (case lp_createdAt u of None \<Rightarrow> link_createdAt l | Some v \<Rightarrow> v)
        \<and> link_updatedAt l' = now k))"
    by (auto simp add: updateLink_def Let_def mapi_nth spread_link_def override_def
        split: option.splits)
next
  note ex = example_store_links example_ids mapi_nth
  have "0 < length (links example_store) \<and> link_id (links example_store ! 0) = ''a''
          \<and> link_id (links (updateLink example_at_t2 ''a''
                 (no_link_updates\<lparr>lp_id := Some ''z''\<rparr>) example_store) ! 0) \<noteq> ''a''"
    by (simp add: ex updateLink_def Let_def spread_link_def override_def no_link_updates_def)
  then show "\<exists>s' i' u' now'. \<exists>k<length (links s'). link_id (links s' ! k) = i'
          \<and> link_id (links (updateLink now' i' u' s') ! k) \<noteq> i'"
    by blast
  have "0 < length (links example_store) \<and> link_id (links example_store ! 0) = ''a''
          \<and> link_createdAt (links (updateLink example_at_t2 ''a''
                 (no_link_updates\<lparr>lp_createdAt := Some example_t9\<rparr>) example_store) ! 0)
              \<noteq> link_createdAt (links example_store ! 0)"
    by (simp add: ex updateLink_def Let_def spread_link_def override_def example_link_a_def
        no_link_updates_def example_t0_def example_t9_def)
  then show "\<exists>s' i' u' now'. \<exists>k<length (links s'). link_id (links s' ! k) = i'
          \<and> link_createdAt (links (updateLink now' i' u' s') ! k)
               \<noteq> link_createdAt (links s' ! k)"
    by blast
  have "0 < length (links example_store) \<and> link_id (links example_store ! 0) = ''a''
          \<and> deletedAt (links example_store ! 0) = None
          \<and> deletedAt (links (updateLink example_at_t2 ''a''
                 (no_link_updates\<lparr>lp_deletedAt := Some (Some example_t2)\<rparr>) example_store) ! 0)
               \<noteq> None"
    by (simp add: ex updateLink_def Let_def spread_link_def override_def example_link_a_def
        no_link_updates_def)
  then show "\<exists>s' i' u' now'. \<exists>k<length (links s'). link_id (links s' ! k) = i'
          \<and> deletedAt (links s' ! k) = None
          \<and> deletedAt (links (updateLink now' i' u' s') ! k) \<noteq> None"
    by blast
  have ordered: "\<forall>k<length (links example_store).
              link_createdAt (links example_store ! k) \<le> link_updatedAt (links example_store ! k)
              \<and> link_updatedAt (links example_store ! k) \<le> example_at_t2 k"
    by (simp add: example_store_links less_Suc_eq nth_Cons' example_link_a_def example_link_b_def
        example_at_t2_def example_t0_def example_t1_def example_t2_def)
  have broken: "0 < length (links example_store)
          \<and> link_updatedAt (links (updateLink example_at_t2 ''a''
                 (no_link_updates\<lparr>lp_createdAt := Some example_t9\<rparr>) example_store) ! 0)
             < link_createdAt (links (updateLink example_at_t2 ''a''
                 (no_link_updates\<lparr>lp_createdAt := Some example_t9\<rparr>) example_store) ! 0)"
    by (simp add: ex updateLink_def Let_def spread_link_def override_def no_link_updates_def
        example_at_t2_def example_t2_def example_t9_def)
  from ordered broken show "\<exists>s' i' u' now'.
          (\<forall>k<length (links s').
              link_createdAt (links s' ! k) \<le> link_updatedAt (links s' ! k)
              \<and> link_updatedAt (links s' ! k) \<le> now' k)
          \<and> (\<exists>k<length (links s').
                 link_updatedAt (links (updateLink now' i' u' s') ! k)
                   < link_createdAt (links (updateLink now' i' u' s') ! k))"
    by blast
qed

theorem updateLink_unrestricted_merge_witness:
  "0 < length (links example_store) \<and> link_id (links example_store ! 0) = ''a''
   \<and> link_id (links (updateLink example_at_t2 ''a''
        (no_link_updates\<lparr>lp_id := Some ''z'', lp_deletedAt := Some (Some example_t1),
           lp_createdAt := Some example_t9, lp_updatedAt := Some example_t0\<rparr>) example_store) ! 0)
       = ''z''
   \<and> deletedAt (links (updateLink example_at_t2 ''a''
        (no_link_updates\<lparr>lp_id := Some ''z'', lp_deletedAt := Some (Some example_t1),
           lp_createdAt := Some example_t9, lp_updatedAt := Some example_t0\<rparr>) example_store) ! 0)
       = Some example_t1
   \<and> link_createdAt (links (updateLink example_at_t2 ''a''
        (no_link_updates\<lparr>lp_id := Some ''z'', lp_deletedAt := Some (Some example_t1),
           lp_createdAt := Some example_t9, lp_updatedAt := Some example_t0\<rparr>) example_store) ! 0)
       = example_t9
   \<and> link_updatedAt (links (updateLink example_at_t2 ''a''
        (no_link_updates\<lparr>lp_id := Some ''z'', lp_deletedAt := Some (Some example_t1),
           lp_createdAt := Some example_t9, lp_updatedAt := Some example_t0\<rparr>) example_store) ! 0)
       = example_t2"
  using updateLink_unrestricted_merge [of example_store "''a''" example_at_t2
        "no_link_updates\<lparr>lp_id := Some ''z'', lp_deletedAt := Some (Some example_t1),
           lp_createdAt := Some example_t9, lp_updatedAt := Some example_t0\<rparr>"]
  by (simp add: example_store_links example_ids Let_def no_link_updates_def example_at_t2_def)

subsection \<open>Bulk favourite\<close>

lemma spread_link_again:
  "spread_link ((spread_link l u)\<lparr>link_updatedAt := t\<rparr>) u\<lparr>link_updatedAt := t'\<rparr>
     = (spread_link l u)\<lparr>link_updatedAt := t'\<rparr>"
  by (simp add: spread_link_def override_def split: option.splits)

lemma updateLink_length: "length (links (updateLink now i u s)) = length (links s)"
  by (simp add: updateLink_def Let_def)

lemma updateLink_nth:
  "j < length (links s) \<Longrightarrow>
   links (updateLink now i u s) ! j =
     (if link_id (links s ! j) = i
      then (spread_link (links s ! j) u)\<lparr>link_updatedAt := now j\<rparr>
      else links s ! j)"
  by (simp add: updateLink_def Let_def mapi_nth)

lemma spread_link_id: "lp_id u = None \<Longrightarrow> link_id (spread_link l u) = link_id l"
  by (simp add: spread_link_def override_def)

lemma forEach_updateLink_length:
  "length (links (forEach_updateLink clock k ids u s)) = length (links s)"
  by (induction ids arbitrary: k s) (simp_all add: updateLink_length)

lemma forEach_updateLink_unselected:
  assumes "j < length (links s)" and "link_id (links s ! j) \<notin> set ids"
  shows "links (forEach_updateLink clock k ids u s) ! j = links s ! j"
  using assms
proof (induction ids arbitrary: k s)
  case Nil
  then show ?case by simp
next
  case (Cons i ids)
  then show ?case
    by (simp add: updateLink_length updateLink_nth)
qed

lemma forEach_updateLink_selected:
  assumes "lp_id u = None" and "j < length (links s)" and "link_id (links s ! j) \<in> set ids"
  shows "\<exists>t. links (forEach_updateLink clock k ids u s) ! j
               = (spread_link (links s ! j) u)\<lparr>link_updatedAt := t\<rparr>"
  using assms
proof (induction ids arbitrary: k s)
  case Nil
  then show ?case by simp
next
  case (Cons i ids)
  let ?s1 = "updateLink (clock k) i u s"
  have len: "j < length (links ?s1)"
    using Cons.prems by (simp add: updateLink_length)
  have id1: "link_id (links ?s1 ! j) = link_id (links s ! j)"
    using Cons.prems by (simp add: updateLink_nth spread_link_id)
  show ?case
  proof (cases "link_id (links s ! j) \<in> set ids")
    case True
    then have "link_id (links ?s1 ! j) \<in> set ids"
      by (simp add: id1)
    from Cons.IH [OF Cons.prems(1) len this, of "Suc k"]
    obtain t where t: "links (forEach_updateLink clock (Suc k) ids u ?s1) ! j
               = (spread_link (links ?s1 ! j) u)\<lparr>link_updatedAt := t\<rparr>"
      by blast
    have "(spread_link (links ?s1 ! j) u)\<lparr>link_updatedAt := t\<rparr>
            = (spread_link (links s ! j) u)\<lparr>link_updatedAt := t\<rparr>"
      using Cons.prems(2) by (simp add: updateLink_nth spread_link_again)
    with t show ?thesis by (intro exI [of _ t]) simp
  next
    case False
    then have here: "link_id (links s ! j) = i"
      using Cons.prems(3) by simp
    have "links (forEach_updateLink clock (Suc k) ids u ?s1) ! j = links ?s1 ! j"
      using len False id1 by (simp add: forEach_updateLink_unselected)
    then show ?thesis
      using here Cons.prems(2) by (intro exI [of _ "clock k j"]) (simp add: updateLink_nth)
  qed
qed

lemma spread_isFavorite:
  "spread_link l (no_link_updates\<lparr>lp_isFavorite := Some b\<rparr>) = l\<lparr>isFavorite := b\<rparr>"
  by (simp add: spread_link_def override_def no_link_updates_def)

lemma spread_folderId:
  "spread_link l (no_link_updates\<lparr>lp_folderId := Some t\<rparr>) = l\<lparr>folderId := t\<rparr>"
  by (simp add: spread_link_def override_def no_link_updates_def)




lemma example_favs:
  "\<not> isFavorite example_link_a" "isFavorite example_link_b" "isFavorite example_link_c"
  by (simp_all add: example_link_a_def example_link_b_def example_link_c_def)

lemma example_folderIds:
  "folderId example_link_a = None" "folderId example_link_b = Some ''f1''"
  by (simp_all add: example_link_a_def example_link_b_def example_link_c_def)



subsection \<open>Bulk move\<close>

lemma move_loop_step:
  "move_loop clock snap target (i # ids) s m =
     (if moved_id snap target i
      then move_loop clock snap target ids
             (updateLink (clock m) i (no_link_updates\<lparr>lp_folderId := Some (Some target)\<rparr>) s) (Suc m)
      else move_loop clock snap target ids s m)"
  by (simp add: moved_id_def split: option.splits)

lemma move_loop_count:
  "snd (move_loop clock snap target ids s m) = m + length (filter (moved_id snap target) ids)"
proof (induction ids arbitrary: s m)
  case Nil
  then show ?case by simp
next
  case (Cons i ids)
  then show ?case
    by (simp only: move_loop_step) simp
qed

lemma move_loop_length:
  "length (links (fst (move_loop clock snap target ids s m))) = length (links s)"
proof (induction ids arbitrary: s m)
  case Nil
  then show ?case by simp
next
  case (Cons i ids)
  then show ?case
    by (simp only: move_loop_step) (simp add: updateLink_length)
qed

lemma folderId_update_id:
  "lp_id (no_link_updates\<lparr>lp_folderId := Some v\<rparr>) = None"
  by (simp add: no_link_updates_def)

lemma move_loop_untouched:
  assumes "j < length (links s)"
    and "\<not> (link_id (links s ! j) \<in> set ids \<and> moved_id snap target (link_id (links s ! j)))"
  shows "links (fst (move_loop clock snap target ids s m)) ! j = links s ! j"
  using assms
proof (induction ids arbitrary: s m)
  case Nil
  then show ?case by simp
next
  case (Cons i ids)
  let ?s1 = "updateLink (clock m) i (no_link_updates\<lparr>lp_folderId := Some (Some target)\<rparr>) s"
  show ?case
  proof (cases "moved_id snap target i")
    case True
    then have ne: "link_id (links s ! j) \<noteq> i"
      using Cons.prems(2) by auto
    then have same: "links ?s1 ! j = links s ! j"
      using Cons.prems(1) by (simp add: updateLink_nth)
    have "links (fst (move_loop clock snap target ids ?s1 (Suc m))) ! j = links ?s1 ! j"
      using Cons.prems same ne by (intro Cons.IH) (auto simp add: updateLink_length)
    then show ?thesis
      using True same by (simp only: move_loop_step) simp
  next
    case False
    have "links (fst (move_loop clock snap target ids s m)) ! j = links s ! j"
      using Cons.prems by (intro Cons.IH) auto
    then show ?thesis
      using False by (simp only: move_loop_step) simp
  qed
qed

lemma move_loop_moved:
  assumes "j < length (links s)"
    and "link_id (links s ! j) \<in> set ids"
    and "moved_id snap target (link_id (links s ! j))"
  shows "\<exists>t. links (fst (move_loop clock snap target ids s m)) ! j
               = (links s ! j)\<lparr>folderId := Some target, link_updatedAt := t\<rparr>"
  using assms
proof (induction ids arbitrary: s m)
  case Nil
  then show ?case by simp
next
  case (Cons i ids)
  let ?u = "no_link_updates\<lparr>lp_folderId := Some (Some target)\<rparr>"
  let ?s1 = "updateLink (clock m) i ?u s"
  let ?L = "links s ! j"
  have len1: "j < length (links ?s1)"
    using Cons.prems(1) by (simp add: updateLink_length)
  have id1: "link_id (links ?s1 ! j) = link_id ?L"
    using Cons.prems(1) by (simp add: updateLink_nth spread_link_id folderId_update_id)
  show ?case
  proof (cases "link_id ?L = i")
    case here: True
    then have mv: "moved_id snap target i"
      using Cons.prems(3) by simp
    have s1: "links ?s1 ! j = ?L\<lparr>folderId := Some target, link_updatedAt := clock m j\<rparr>"
      using here Cons.prems(1) by (simp add: updateLink_nth spread_folderId)
    show ?thesis
    proof (cases "link_id ?L \<in> set ids")
      case True
      obtain t where "links (fst (move_loop clock snap target ids ?s1 (Suc m))) ! j
               = (links ?s1 ! j)\<lparr>folderId := Some target, link_updatedAt := t\<rparr>"
        using Cons.IH [OF len1, of "Suc m"] True Cons.prems(3) id1 by auto
      then have "links (fst (move_loop clock snap target ids ?s1 (Suc m))) ! j
               = ?L\<lparr>folderId := Some target, link_updatedAt := t\<rparr>"
        by (simp add: s1)
      then show ?thesis
        using mv by (simp only: move_loop_step) auto
    next
      case False
      have "links (fst (move_loop clock snap target ids ?s1 (Suc m))) ! j = links ?s1 ! j"
        using len1 False id1 by (intro move_loop_untouched) simp_all
      then show ?thesis
        using mv s1 by (simp only: move_loop_step) auto
    qed
  next
    case False
    then have inids: "link_id ?L \<in> set ids"
      using Cons.prems(2) by auto
    show ?thesis
    proof (cases "moved_id snap target i")
      case True
      have s1: "links ?s1 ! j = ?L"
        using False Cons.prems(1) by (simp add: updateLink_nth)
      obtain t where "links (fst (move_loop clock snap target ids ?s1 (Suc m))) ! j
               = (links ?s1 ! j)\<lparr>folderId := Some target, link_updatedAt := t\<rparr>"
        using Cons.IH [OF len1, of "Suc m"] inids Cons.prems(3) id1 by auto
      then show ?thesis
        using True s1 by (simp only: move_loop_step) auto
    next
      case nomove: False
      obtain t where "links (fst (move_loop clock snap target ids s m)) ! j
               = ?L\<lparr>folderId := Some target, link_updatedAt := t\<rparr>"
        using Cons.IH [OF Cons.prems(1), of m] inids Cons.prems(3) by auto
      then show ?thesis
        using nomove by (simp only: move_loop_step) auto
    qed
  qed
qed

lemma moved_id_distinct:
  "distinct (map link_id ls) \<Longrightarrow>
   moved_id ls t i \<longleftrightarrow> (\<exists>L\<in>set ls. link_id L = i \<and> folderId L \<noteq> Some t)"
proof (induction ls)
  case Nil
  then show ?case by (simp add: moved_id_def)
next
  case (Cons a ls)
  show ?case
  proof (cases "link_id a = i")
    case True
    then have "\<forall>L\<in>set ls. link_id L \<noteq> i"
      using Cons.prems by (auto simp add: image_iff)
    then show ?thesis
      using True by (auto simp add: moved_id_def)
  next
    case False
    then have "moved_id (a # ls) t i = moved_id ls t i"
      by (simp add: moved_id_def)
    then show ?thesis
      using False Cons by auto
  qed
qed

lemma moved_id_nth:
  "distinct (map link_id ls) \<Longrightarrow> j < length ls \<Longrightarrow>
   moved_id ls t (link_id (ls ! j)) \<longleftrightarrow> folderId (ls ! j) \<noteq> Some t"
  by (auto simp add: moved_id_distinct distinct_map inj_on_def dest: nth_mem)

lemma count_selected:
  assumes "distinct ids" and "distinct (map f xs)" and "set ids \<subseteq> f ` set xs"
  shows "length (filter (\<lambda>x. f x \<in> set ids) xs) = length ids"
proof -
  have "length (filter (\<lambda>x. f x \<in> set ids) xs)
          = length (map f (filter (\<lambda>x. f x \<in> set ids) xs))"
    by simp
  also have "map f (filter (\<lambda>x. f x \<in> set ids) xs) = filter (\<lambda>y. y \<in> set ids) (map f xs)"
    by (simp add: filter_map comp_def)
  also have "length (filter (\<lambda>y. y \<in> set ids) (map f xs)) = card ({y. y \<in> set ids} \<inter> set (map f xs))"
    using assms(2) by (rule distinct_length_filter)
  also have "{y. y \<in> set ids} \<inter> set (map f xs) = set ids"
    using assms(3) by auto
  also have "card (set ids) = length ids"
    using assms(1) by (rule distinct_card)
  finally show ?thesis .
qed

lemma count_moved:
  assumes "distinct ids" and "distinct (map link_id ls)"
  shows "length (filter (moved_id ls t) ids)
           = length (filter (\<lambda>L. link_id L \<in> set ids \<and> folderId L \<noteq> Some t) ls)"
proof -
  let ?Q = "\<lambda>L. link_id L \<in> set ids \<and> folderId L \<noteq> Some t"
  have inj: "inj_on link_id (set ls)" and dls: "distinct ls"
    using assms(2) by (simp_all add: distinct_map)
  have "length (filter (moved_id ls t) ids) = card ({i. moved_id ls t i} \<inter> set ids)"
    using assms(1) by (rule distinct_length_filter)
  also have "{i. moved_id ls t i} \<inter> set ids = link_id ` ({L. ?Q L} \<inter> set ls)"
    using assms(2) by (auto simp add: moved_id_distinct)
  also have "card (link_id ` ({L. ?Q L} \<inter> set ls)) = card ({L. ?Q L} \<inter> set ls)"
    by (rule card_image) (rule inj_on_subset [OF inj], simp)
  also have "\<dots> = length (filter ?Q ls)"
    using dls by (simp add: distinct_length_filter)
  finally show ?thesis .
qed

lemma handleMove_declined:
  assumes "target \<noteq> []"
    and "filter (\<lambda>l. folderId l = Some target) (selectedLinks ids (links s)) \<noteq> []"
  shows "handleMove clock False (Some target) ids s
           = \<lparr>move_state = s, confirm_asked = True, onComplete_arg = None\<rparr>"
  using assms by (simp add: handleMove_def Let_def)

lemma handleMove_committed:
  assumes "target \<noteq> []"
    and "proceed \<or> filter (\<lambda>l. folderId l = Some target) (selectedLinks ids (links s)) = []"
  shows "handleMove clock proceed (Some target) ids s
           = \<lparr>move_state = fst (move_loop clock (links s) target ids s 0),
              confirm_asked =
                (filter (\<lambda>l. folderId l = Some target) (selectedLinks ids (links s)) \<noteq> []),
              onComplete_arg = Some (length (filter (moved_id (links s) target) ids))\<rparr>"
proof -
  have "snd (move_loop clock (links s) target ids s 0)
          = length (filter (moved_id (links s) target) ids)"
    by (simp add: move_loop_count)
  then show ?thesis
    using assms by (auto simp add: handleMove_def Let_def split: prod.splits)
qed




subsection \<open>What the bulk actions report\<close>

lemma deleteLink_length: "length (links (deleteLink now i s)) = length (links s)"
  by (simp add: deleteLink_def Let_def)

lemma deleteLink_nth:
  "j < length (links s) \<Longrightarrow>
   links (deleteLink now i s) ! j =
     (if link_id (links s ! j) = i
      then (links s ! j)\<lparr>deletedAt := Some (fst (now j)), link_updatedAt := snd (now j)\<rparr>
      else links s ! j)"
  by (simp add: deleteLink_def Let_def mapi_nth)

lemma forEach_deleteLink_length:
  "length (links (forEach_deleteLink clock k ids s)) = length (links s)"
  by (induction ids arbitrary: k s) (simp_all add: deleteLink_length)

lemma forEach_deleteLink_unselected:
  assumes "j < length (links s)" and "link_id (links s ! j) \<notin> set ids"
  shows "links (forEach_deleteLink clock k ids s) ! j = links s ! j"
  using assms
proof (induction ids arbitrary: k s)
  case Nil
  then show ?case by simp
next
  case (Cons i ids)
  then show ?case
    by (simp add: deleteLink_length deleteLink_nth)
qed

lemma forEach_deleteLink_selected:
  assumes "j < length (links s)" and "link_id (links s ! j) \<in> set ids"
  shows "\<exists>d u. links (forEach_deleteLink clock k ids s) ! j
                 = (links s ! j)\<lparr>deletedAt := Some d, link_updatedAt := u\<rparr>"
  using assms
proof (induction ids arbitrary: k s)
  case Nil
  then show ?case by simp
next
  case (Cons i ids)
  let ?s1 = "deleteLink (clock k) i s"
  have len: "j < length (links ?s1)"
    using Cons.prems by (simp add: deleteLink_length)
  have id1: "link_id (links ?s1 ! j) = link_id (links s ! j)"
    using Cons.prems by (simp add: deleteLink_nth)
  show ?case
  proof (cases "link_id (links s ! j) \<in> set ids")
    case True
    then have "link_id (links ?s1 ! j) \<in> set ids"
      by (simp add: id1)
    from Cons.IH [OF len this, of "Suc k"]
    obtain d u where du: "links (forEach_deleteLink clock (Suc k) ids ?s1) ! j
               = (links ?s1 ! j)\<lparr>deletedAt := Some d, link_updatedAt := u\<rparr>"
      by blast
    have "(links ?s1 ! j)\<lparr>deletedAt := Some d, link_updatedAt := u\<rparr>
            = (links s ! j)\<lparr>deletedAt := Some d, link_updatedAt := u\<rparr>"
      using Cons.prems(1) by (simp add: deleteLink_nth)
    with du show ?thesis
      by (intro exI [of _ d] exI [of _ u]) simp
  next
    case False
    then have here: "link_id (links s ! j) = i"
      using Cons.prems(2) by simp
    have "links (forEach_deleteLink clock (Suc k) ids ?s1) ! j = links ?s1 ! j"
      using len False id1 by (simp add: forEach_deleteLink_unselected)
    then show ?thesis
      using here Cons.prems(1)
      by (intro exI [of _ "fst (clock k j)"] exI [of _ "snd (clock k j)"])
        (simp add: deleteLink_nth)
  qed
qed

lemma changed_count_filter:
  assumes "length xs = length ys"
    and "\<forall>j<length xs. (xs ! j \<noteq> ys ! j) = Q (xs ! j)"
  shows "changed_count xs ys = length (filter Q xs)"
proof -
  have "\<forall>(b, a)\<in>set (zip xs ys). (b \<noteq> a) = Q b"
  proof (clarify)
    fix b a
    assume "(b, a) \<in> set (zip xs ys)"
    then obtain n where n: "n < length xs" and b: "xs ! n = b" and a: "ys ! n = a"
      by (auto simp add: in_set_zip)
    have "(xs ! n \<noteq> ys ! n) = Q (xs ! n)"
      using assms(2) n by simp
    then show "(b \<noteq> a) = Q b"
      by (simp only: a b)
  qed
  with assms(1) have "length (filter (\<lambda>(b, a). b \<noteq> a) (zip xs ys)) = length (filter Q xs)"
    by (induction xs ys rule: list_induct2) auto
  then show ?thesis
    by (simp add: changed_count_def)
qed

lemma bulkMove_committed:
  assumes "target \<noteq> []"
    and "proceed \<or> filter (\<lambda>l. folderId l = Some target) (selectedLinks ids (links s)) = []"
  shows "outcome_state (bulkMove clock proceed (Some target) ids s)
           = fst (move_loop clock (links s) target ids s 0)"
    and "shown_toast (bulkMove clock proceed (Some target) ids s)
           = (if 0 < length (filter (moved_id (links s) target) ids)
              then Some (ItemsMoved (length (filter (moved_id (links s) target) ids)))
              else None)"
    and "selection_cleared (bulkMove clock proceed (Some target) ids s)
           = (0 < length (filter (moved_id (links s) target) ids))"
  using handleMove_committed [OF assms, of clock]
  by (simp_all add: bulkMove_def handleMoveComplete_def Let_def)

lemma move_loop_changes:
  assumes "distinct (map link_id (links s))" and "j < length (links s)"
  shows "(links s ! j \<noteq> links (fst (move_loop clock (links s) target ids s 0)) ! j)
           = (link_id (links s ! j) \<in> set ids \<and> folderId (links s ! j) \<noteq> Some target)"
    and "links s ! j \<noteq> links (fst (move_loop clock (links s) target ids s 0)) ! j
           \<Longrightarrow> folderId (links (fst (move_loop clock (links s) target ids s 0)) ! j) = Some target"
proof -
  let ?s' = "fst (move_loop clock (links s) target ids s 0)"
  let ?L = "links s ! j"
  have mv: "moved_id (links s) target (link_id ?L) \<longleftrightarrow> folderId ?L \<noteq> Some target"
    using assms by (rule moved_id_nth)
  have both: "(?L \<noteq> links ?s' ! j) = (link_id ?L \<in> set ids \<and> folderId ?L \<noteq> Some target)
      \<and> (?L \<noteq> links ?s' ! j \<longrightarrow> folderId (links ?s' ! j) = Some target)"
  proof (cases "link_id ?L \<in> set ids \<and> folderId ?L \<noteq> Some target")
    case True
    then obtain t where t: "links ?s' ! j = ?L\<lparr>folderId := Some target, link_updatedAt := t\<rparr>"
      using move_loop_moved [OF assms(2), of ids "links s" target clock 0] mv by blast
    then have "folderId (links ?s' ! j) = Some target"
      by simp
    then show ?thesis
      using True by auto
  next
    case False
    then have "links ?s' ! j = ?L"
      using assms(2) mv by (intro move_loop_untouched) auto
    then show ?thesis
      using False by simp
  qed
  from both show "(?L \<noteq> links ?s' ! j) = (link_id ?L \<in> set ids \<and> folderId ?L \<noteq> Some target)"
    by blast
  from both show "?L \<noteq> links ?s' ! j \<Longrightarrow> folderId (links ?s' ! j) = Some target"
    by blast
qed

lemma move_loop_changed_count:
  assumes "distinct ids" and "distinct (map link_id (links s))"
  shows "changed_count (links s) (links (fst (move_loop clock (links s) target ids s 0)))
           = length (filter (moved_id (links s) target) ids)"
proof -
  let ?s' = "fst (move_loop clock (links s) target ids s 0)"
  have "changed_count (links s) (links ?s')
          = length (filter (\<lambda>L. link_id L \<in> set ids \<and> folderId L \<noteq> Some target) (links s))"
    using move_loop_changes(1) [OF assms(2)]
    by (intro changed_count_filter) (simp_all add: move_loop_length)
  then show ?thesis
    by (simp add: count_moved [OF assms])
qed

lemma forEach_deleteLink_changed_count:
  assumes "\<forall>l\<in>set (selectedLinks ids (links s)). deletedAt l = None"
  shows "changed_count (links s) (links (forEach_deleteLink clock k ids s))
           = length (selectedLinks ids (links s))"
proof -
  let ?s' = "forEach_deleteLink clock k ids s"
  have "(links s ! j \<noteq> links ?s' ! j) = (link_id (links s ! j) \<in> set ids)"
    if j: "j < length (links s)" for j
  proof (cases "link_id (links s ! j) \<in> set ids")
    case True
    then have "links s ! j \<in> set (selectedLinks ids (links s))"
      using j by (simp add: selectedLinks_def)
    then have active: "deletedAt (links s ! j) = None"
      using assms by blast
    obtain d u where "links ?s' ! j = (links s ! j)\<lparr>deletedAt := Some d, link_updatedAt := u\<rparr>"
      using forEach_deleteLink_selected [OF j True, of clock k] by blast
    then have "deletedAt (links ?s' ! j) = Some d"
      by simp
    then show ?thesis
      using True active by auto
  next
    case False
    then show ?thesis
      using j by (simp add: forEach_deleteLink_unselected)
  qed
  then show ?thesis
    unfolding selectedLinks_def
    by (intro changed_count_filter) (simp_all add: forEach_deleteLink_length)
qed

text \<open>
  C7, as stated, fails: bulk favourite and bulk delete report the number of selected
  identifiers. With a selected identifier that no link of the collection carries, each
  reports two although one link changed.
\<close>

theorem bulk_action_reports_counterexample:
  "shown_toast (handleBulkFavorite example_clock [''a'', ''gone''] example_store)
     = Some (AddedToFavorites 2)
   \<and> changed_count (links example_store)
        (links (outcome_state (handleBulkFavorite example_clock [''a'', ''gone''] example_store)))
       = 1
   \<and> shown_toast (handleConfirmDelete example_clock2 [''a'', ''gone''] example_store)
       = Some (ItemsDeleted 2)
   \<and> changed_count (links example_store)
        (links (outcome_state (handleConfirmDelete example_clock2 [''a'', ''gone''] example_store)))
       = 1"
  by (simp add: handleBulkFavorite_def handleConfirmDelete_def Let_def selectedLinks_def
      shouldFavorite_def hasMixedStates_def changed_count_def example_store_links example_ids
      example_favs updateLink_def deleteLink_def spread_isFavorite mapi_Cons mapi_Nil
      example_link_a_def example_link_b_def)

text \<open>
  C7, amended. Bulk favourite re-writes exactly the links whose identifier is selected, each
  with the resolved \<^verbatim>\<open>isFavorite\<close> and a new \<^verbatim>\<open>updatedAt\<close>, and reports the number of
  selected identifiers. Bulk delete soft-deletes exactly the links whose identifier is
  selected, reports the number of selected identifiers and clears the selection; when none of
  them was in the trash, the links that changed are as many as the links whose identifier is
  selected. That number is the number of selected identifiers when these are distinct, link
  identifiers are unique and every selected identifier is that of a link. A bulk move to a
  target folder that was not declined counts the selected identifiers whose link is found
  outside the target; it reports the count and clears the selection when the count is
  positive, and reports nothing and clears nothing when it is zero. With distinct selected
  identifiers and unique link identifiers the count is the number of links that changed, each
  of them selected, outside the target before and in it after. A declined move reports
  nothing, clears nothing and leaves the store as it was.
\<close>

theorem bulk_action_reports:
  "(let r = handleBulkFavorite clock ids s; s' = outcome_state r
    in (\<exists>t. shown_toast r = Some t \<and> toast_count t = length ids)
     \<and> length (links s') = length (links s)
     \<and> (\<forall>j<length (links s).
           (link_id (links s ! j) \<in> set ids \<longrightarrow>
              (\<exists>u. links s' ! j
                     = (links s ! j)\<lparr>isFavorite := shouldFavorite (selectedLinks ids (links s)),
                          link_updatedAt := u\<rparr>))
         \<and> (link_id (links s ! j) \<notin> set ids \<longrightarrow> links s' ! j = links s ! j)))
   \<and> (let r = handleConfirmDelete clock2 ids s; s' = outcome_state r
      in shown_toast r = Some (ItemsDeleted (length ids))
       \<and> selection_cleared r
       \<and> length (links s') = length (links s)
       \<and> (\<forall>j<length (links s).
             (link_id (links s ! j) \<in> set ids \<longrightarrow>
                (\<exists>d u. links s' ! j
                         = (links s ! j)\<lparr>deletedAt := Some d, link_updatedAt := u\<rparr>))
           \<and> (link_id (links s ! j) \<notin> set ids \<longrightarrow> links s' ! j = links s ! j))
       \<and> ((\<forall>l\<in>set (selectedLinks ids (links s)). deletedAt l = None) \<longrightarrow>
             changed_count (links s) (links s') = length (selectedLinks ids (links s))))
   \<and> (distinct ids \<and> distinct (map link_id (links s)) \<and> set ids \<subseteq> link_id ` set (links s)
       \<longrightarrow> length (selectedLinks ids (links s)) = length ids)
   \<and> (target \<noteq> []
        \<and> (proceed \<or> filter (\<lambda>l. folderId l = Some target) (selectedLinks ids (links s)) = [])
       \<longrightarrow> (let n = length (filter (moved_id (links s) target) ids);
                 r = bulkMove clock proceed (Some target) ids s;
                 s' = outcome_state r
             in shown_toast r = (if 0 < n then Some (ItemsMoved n) else None)
              \<and> selection_cleared r = (0 < n)
              \<and> length (links s') = length (links s)
              \<and> (distinct ids \<and> distinct (map link_id (links s)) \<longrightarrow>
                    changed_count (links s) (links s') = n
                    \<and> (\<forall>j<length (links s). links s ! j \<noteq> links s' ! j \<longrightarrow>
                          link_id (links s ! j) \<in> set ids
                          \<and> folderId (links s ! j) \<noteq> Some target
                          \<and> folderId (links s' ! j) = Some target))))
   \<and> (target \<noteq> [] \<and> \<not> proceed
        \<and> filter (\<lambda>l. folderId l = Some target) (selectedLinks ids (links s)) \<noteq> []
       \<longrightarrow> (let r = bulkMove clock proceed (Some target) ids s
             in shown_toast r = None \<and> \<not> selection_cleared r \<and> outcome_state r = s))"
proof (intro conjI impI)
  let ?fav = "shouldFavorite (selectedLinks ids (links s))"
  let ?u = "no_link_updates\<lparr>lp_isFavorite := Some ?fav\<rparr>"
  let ?s' = "forEach_updateLink clock 0 ids ?u s"
  have out: "outcome_state (handleBulkFavorite clock ids s) = ?s'"
    by (simp add: handleBulkFavorite_def Let_def)
  have toast: "\<exists>t. shown_toast (handleBulkFavorite clock ids s) = Some t
                   \<and> toast_count t = length ids"
    by (simp add: handleBulkFavorite_def Let_def)
  have u: "lp_id ?u = None"
    by (simp add: no_link_updates_def)
  have sel: "\<exists>t. links ?s' ! j = (links s ! j)\<lparr>isFavorite := ?fav, link_updatedAt := t\<rparr>"
    if a: "j < length (links s)" and b: "link_id (links s ! j) \<in> set ids" for j
    using forEach_updateLink_selected [OF u a b, of clock 0] by (simp only: spread_isFavorite)
  have unsel: "links ?s' ! j = links s ! j"
    if "j < length (links s)" "link_id (links s ! j) \<notin> set ids" for j
    using that by (rule forEach_updateLink_unselected)
  have len: "length (links ?s') = length (links s)"
    by (rule forEach_updateLink_length)
  show "let r = handleBulkFavorite clock ids s; s' = outcome_state r
    in (\<exists>t. shown_toast r = Some t \<and> toast_count t = length ids)
     \<and> length (links s') = length (links s)
     \<and> (\<forall>j<length (links s).
           (link_id (links s ! j) \<in> set ids \<longrightarrow>
              (\<exists>u. links s' ! j
                     = (links s ! j)\<lparr>isFavorite := shouldFavorite (selectedLinks ids (links s)),
                          link_updatedAt := u\<rparr>))
         \<and> (link_id (links s ! j) \<notin> set ids \<longrightarrow> links s' ! j = links s ! j))"
    unfolding Let_def out
    using toast len sel unsel by blast
next
  let ?s' = "forEach_deleteLink clock2 0 ids s"
  have out: "outcome_state (handleConfirmDelete clock2 ids s) = ?s'"
    by (simp add: handleConfirmDelete_def)
  have toast: "shown_toast (handleConfirmDelete clock2 ids s) = Some (ItemsDeleted (length ids))"
    and cleared: "selection_cleared (handleConfirmDelete clock2 ids s)"
    by (simp_all add: handleConfirmDelete_def)
  have sel: "\<exists>d u. links ?s' ! j = (links s ! j)\<lparr>deletedAt := Some d, link_updatedAt := u\<rparr>"
    if "j < length (links s)" "link_id (links s ! j) \<in> set ids" for j
    using that by (rule forEach_deleteLink_selected)
  have unsel: "links ?s' ! j = links s ! j"
    if "j < length (links s)" "link_id (links s ! j) \<notin> set ids" for j
    using that by (rule forEach_deleteLink_unselected)
  have len: "length (links ?s') = length (links s)"
    by (rule forEach_deleteLink_length)
  have cnt: "changed_count (links s) (links ?s') = length (selectedLinks ids (links s))"
    if "\<forall>l\<in>set (selectedLinks ids (links s)). deletedAt l = None"
    using that by (rule forEach_deleteLink_changed_count)
  show "let r = handleConfirmDelete clock2 ids s; s' = outcome_state r
      in shown_toast r = Some (ItemsDeleted (length ids))
       \<and> selection_cleared r
       \<and> length (links s') = length (links s)
       \<and> (\<forall>j<length (links s).
             (link_id (links s ! j) \<in> set ids \<longrightarrow>
                (\<exists>d u. links s' ! j
                         = (links s ! j)\<lparr>deletedAt := Some d, link_updatedAt := u\<rparr>))
           \<and> (link_id (links s ! j) \<notin> set ids \<longrightarrow> links s' ! j = links s ! j))
       \<and> ((\<forall>l\<in>set (selectedLinks ids (links s)). deletedAt l = None) \<longrightarrow>
             changed_count (links s) (links s') = length (selectedLinks ids (links s)))"
    unfolding Let_def out
    using toast cleared len sel unsel cnt by blast
next
  assume "distinct ids \<and> distinct (map link_id (links s)) \<and> set ids \<subseteq> link_id ` set (links s)"
  then show "length (selectedLinks ids (links s)) = length ids"
    by (simp add: selectedLinks_def count_selected)
next
  assume h: "target \<noteq> []
        \<and> (proceed \<or> filter (\<lambda>l. folderId l = Some target) (selectedLinks ids (links s)) = [])"
  let ?n = "length (filter (moved_id (links s) target) ids)"
  let ?r = "bulkMove clock proceed (Some target) ids s"
  let ?s' = "fst (move_loop clock (links s) target ids s 0)"
  from h have t: "target \<noteq> []"
    and p: "proceed \<or> filter (\<lambda>l. folderId l = Some target) (selectedLinks ids (links s)) = []"
    by blast+
  note c = bulkMove_committed [OF t p, of clock]
  have len: "length (links ?s') = length (links s)"
    by (rule move_loop_length)
  have cnt: "changed_count (links s) (links ?s') = ?n"
    if "distinct ids \<and> distinct (map link_id (links s))"
    using that by (simp add: move_loop_changed_count)
  have pos: "link_id (links s ! j) \<in> set ids \<and> folderId (links s ! j) \<noteq> Some target
               \<and> folderId (links ?s' ! j) = Some target"
    if d: "distinct ids \<and> distinct (map link_id (links s))"
      and j: "j < length (links s)" and ne: "links s ! j \<noteq> links ?s' ! j" for j
  proof -
    have dl: "distinct (map link_id (links s))"
      using d by blast
    show ?thesis
      using move_loop_changes(1) [OF dl j, of clock target ids]
        move_loop_changes(2) [OF dl j, of clock target ids] ne
      by blast
  qed
  show "let n = length (filter (moved_id (links s) target) ids);
                 r = bulkMove clock proceed (Some target) ids s;
                 s' = outcome_state r
             in shown_toast r = (if 0 < n then Some (ItemsMoved n) else None)
              \<and> selection_cleared r = (0 < n)
              \<and> length (links s') = length (links s)
              \<and> (distinct ids \<and> distinct (map link_id (links s)) \<longrightarrow>
                    changed_count (links s) (links s') = n
                    \<and> (\<forall>j<length (links s). links s ! j \<noteq> links s' ! j \<longrightarrow>
                          link_id (links s ! j) \<in> set ids
                          \<and> folderId (links s ! j) \<noteq> Some target
                          \<and> folderId (links s' ! j) = Some target))"
    unfolding Let_def c(1)
    using c(2) c(3) len cnt pos by blast
next
  assume h: "target \<noteq> [] \<and> \<not> proceed
        \<and> filter (\<lambda>l. folderId l = Some target) (selectedLinks ids (links s)) \<noteq> []"
  then show "let r = bulkMove clock proceed (Some target) ids s
             in shown_toast r = None \<and> \<not> selection_cleared r \<and> outcome_state r = s"
    using handleMove_declined [of target ids s clock]
    by (simp add: bulkMove_def Let_def)
qed

theorem bulk_action_reports_witness:
  "shown_toast (bulkMove example_clock True (Some ''f1'') [''a'', ''b''] example_store)
     = Some (ItemsMoved 1)
   \<and> selection_cleared (bulkMove example_clock True (Some ''f1'') [''a'', ''b''] example_store)
   \<and> changed_count (links example_store)
        (links (outcome_state
           (bulkMove example_clock True (Some ''f1'') [''a'', ''b''] example_store))) = 1
   \<and> shown_toast (bulkMove example_clock False (Some ''f1'') [''a'', ''b''] example_store) = None
   \<and> length (selectedLinks [''a'', ''b''] (links example_store)) = 2
   \<and> shown_toast (handleConfirmDelete example_clock2 [''a'', ''b''] example_store)
       = Some (ItemsDeleted 2)
   \<and> changed_count (links example_store)
        (links (outcome_state (handleConfirmDelete example_clock2 [''a'', ''b''] example_store)))
       = 2"
proof -
  let ?ids = "[''a'', ''b'']"
  let ?already = "filter (\<lambda>l. folderId l = Some ''f1'') (selectedLinks ?ids (links example_store))"
  have sel: "selectedLinks ?ids (links example_store) = [example_link_a, example_link_b]"
    by (simp add: selectedLinks_def example_store_links example_ids)
  have already: "?already = [example_link_b]"
    by (simp add: selectedLinks_def example_store_links example_ids example_folderIds)
  have mv: "filter (moved_id (links example_store) ''f1'') ?ids = [''a'']"
    by (simp add: moved_id_def example_store_links example_ids example_folderIds)
  have d: "distinct ?ids \<and> distinct (map link_id (links example_store))
             \<and> set ?ids \<subseteq> link_id ` set (links example_store)"
    by (simp add: example_store_links example_ids)
  have active: "\<forall>l\<in>set (selectedLinks ?ids (links example_store)). deletedAt l = None"
    by (simp add: sel example_link_a_def example_link_b_def)
  note yes = bulk_action_reports [of example_clock ?ids example_store example_clock2 "''f1''" True,
      unfolded Let_def already mv]
  note no = bulk_action_reports [of example_clock ?ids example_store example_clock2 "''f1''" False,
      unfolded Let_def already mv]
  have a: "shown_toast (bulkMove example_clock True (Some ''f1'') ?ids example_store)
             = Some (ItemsMoved 1)
           \<and> selection_cleared (bulkMove example_clock True (Some ''f1'') ?ids example_store)
           \<and> changed_count (links example_store)
                (links (outcome_state
                   (bulkMove example_clock True (Some ''f1'') ?ids example_store))) = 1"
    using yes d by simp
  have b: "shown_toast (bulkMove example_clock False (Some ''f1'') ?ids example_store) = None"
    using no by simp
  have c: "length (selectedLinks ?ids (links example_store)) = 2"
    using yes d by simp
  have e: "shown_toast (handleConfirmDelete example_clock2 ?ids example_store)
             = Some (ItemsDeleted 2)
           \<and> changed_count (links example_store)
                (links (outcome_state (handleConfirmDelete example_clock2 ?ids example_store)))
               = length (selectedLinks ?ids (links example_store))"
    using yes active by simp
  show ?thesis
    using a b c e by simp
qed

subsection \<open>Loading from storage\<close>

lemma platform_folder_fields:
  "folder_platform (platform_folder clock i pf) = Some (pf_platform pf)"
  "isPlatformFolder (platform_folder clock i pf)"
  "parentId (platform_folder clock i pf) = None"
  "name (platform_folder clock i pf) = pf_name pf"
  "folder_id (platform_folder clock i pf) \<noteq> []"
  by (simp_all add: platform_folder_def split: prod.splits)

lemma platform_folders_platforms:
  "map folder_platform (mapi (platform_folder clock) PF) = map (\<lambda>pf. Some (pf_platform pf)) PF"
  by (rule nth_equalityI) (simp_all add: mapi_nth platform_folder_fields)

lemma platform_folders_count:
  "length (filter (\<lambda>f. folder_platform f = Some p) (mapi (platform_folder clock) PF))
     = length (filter (\<lambda>pf. pf_platform pf = p) PF)"
proof -
  have "length (filter (\<lambda>f. folder_platform f = Some p) (mapi (platform_folder clock) PF))
          = length (filter (\<lambda>x. x = Some p)
                      (map folder_platform (mapi (platform_folder clock) PF)))"
    by (simp only: filter_map length_map comp_def)
  also have "\<dots> = length (filter (\<lambda>x. x = Some p) (map (\<lambda>pf. Some (pf_platform pf)) PF))"
    by (simp only: platform_folders_platforms)
  also have "\<dots> = length (filter (\<lambda>pf. pf_platform pf = p) PF)"
    by (simp add: filter_map comp_def)
  finally show ?thesis .
qed

lemma loadFromStorage_empty:
  assumes "stored_folders (localStorage s) = None \<or> stored_folders (localStorage s) = Some []"
  shows "folders (loadFromStorage PF clock s) = mapi (platform_folder clock) PF"
    and "isHydrated (loadFromStorage PF clock s)"
    and "stored_folders (localStorage (loadFromStorage PF clock s))
           = Some (folders (loadFromStorage PF clock s))"
  using assms by (auto simp add: loadFromStorage_def Let_def setItem_FOLDERS_def)

lemma example_PLATFORM_FOLDERS_one_each:
  "\<forall>p. length (filter (\<lambda>pf. pf_platform pf = p) example_PLATFORM_FOLDERS) = 1"
proof
  fix p
  show "length (filter (\<lambda>pf. pf_platform pf = p) example_PLATFORM_FOLDERS) = 1"
    by (cases p) (simp_all add: example_PLATFORM_FOLDERS_def)
qed

text \<open>
  C9. When the stored folder collection is absent or empty, \<^verbatim>\<open>loadFromStorage\<close> sets the
  folders to one folder per entry of \<^verbatim>\<open>PLATFORM_FOLDERS\<close>, in order, each with the entry's
  platform and name, \<^verbatim>\<open>isPlatformFolder = true\<close> and \<^verbatim>\<open>parentId = null\<close>; so with one entry
  per platform the collection is non-empty and holds exactly one folder per platform. It
  writes these folders to storage and sets the hydration flag in the same step. When the
  stored collection is non-empty it is loaded as it is and storage is not written.
\<close>

theorem loadFromStorage_platform_folders:
  "(stored_folders (localStorage s) = None \<or> stored_folders (localStorage s) = Some [] \<longrightarrow>
      (let s' = loadFromStorage PF clock s
       in length (folders s') = length PF
        \<and> (\<forall>k<length PF. folder_platform (folders s' ! k) = Some (pf_platform (PF ! k))
                          \<and> name (folders s' ! k) = pf_name (PF ! k))
        \<and> (\<forall>f\<in>set (folders s'). isPlatformFolder f \<and> parentId f = None)
        \<and> (\<forall>p. length (filter (\<lambda>f. folder_platform f = Some p) (folders s'))
                  = length (filter (\<lambda>pf. pf_platform pf = p) PF))
        \<and> ((\<forall>p. length (filter (\<lambda>pf. pf_platform pf = p) PF) = 1) \<longrightarrow>
              folders s' \<noteq> []
              \<and> (\<forall>p. length (filter (\<lambda>f. folder_platform f = Some p) (folders s')) = 1))
        \<and> isHydrated s'
        \<and> stored_folders (localStorage s') = Some (folders s')))
   \<and> (\<forall>fs. stored_folders (localStorage s) = Some fs \<and> fs \<noteq> [] \<longrightarrow>
          folders (loadFromStorage PF clock s) = fs
          \<and> isHydrated (loadFromStorage PF clock s)
          \<and> localStorage (loadFromStorage PF clock s) = localStorage s)"
proof (intro conjI impI allI)
  assume e: "stored_folders (localStorage s) = None \<or> stored_folders (localStorage s) = Some []"
  let ?s' = "loadFromStorage PF clock s"
  note f = loadFromStorage_empty [OF e, of PF clock]
  have len: "length (folders ?s') = length PF"
    by (simp add: f(1))
  have nth: "folder_platform (folders ?s' ! k) = Some (pf_platform (PF ! k))
               \<and> name (folders ?s' ! k) = pf_name (PF ! k)" if "k < length PF" for k
    using that by (simp add: f(1) mapi_nth platform_folder_fields)
  have all: "\<forall>f\<in>set (folders ?s'). isPlatformFolder f \<and> parentId f = None"
    by (auto simp add: f(1) in_set_conv_nth mapi_nth platform_folder_fields)
  have cnt: "length (filter (\<lambda>f. folder_platform f = Some p) (folders ?s'))
                  = length (filter (\<lambda>pf. pf_platform pf = p) PF)" for p
    by (simp only: f(1) platform_folders_count)
  have one: "folders ?s' \<noteq> []
              \<and> (\<forall>p. length (filter (\<lambda>f. folder_platform f = Some p) (folders ?s')) = 1)"
    if h: "\<forall>p. length (filter (\<lambda>pf. pf_platform pf = p) PF) = 1"
  proof -
    have "PF \<noteq> []"
      using h by auto
    then show ?thesis
      using h cnt len by auto
  qed
  show "let s' = loadFromStorage PF clock s
       in length (folders s') = length PF
        \<and> (\<forall>k<length PF. folder_platform (folders s' ! k) = Some (pf_platform (PF ! k))
                          \<and> name (folders s' ! k) = pf_name (PF ! k))
        \<and> (\<forall>f\<in>set (folders s'). isPlatformFolder f \<and> parentId f = None)
        \<and> (\<forall>p. length (filter (\<lambda>f. folder_platform f = Some p) (folders s'))
                  = length (filter (\<lambda>pf. pf_platform pf = p) PF))
        \<and> ((\<forall>p. length (filter (\<lambda>pf. pf_platform pf = p) PF) = 1) \<longrightarrow>
              folders s' \<noteq> []
              \<and> (\<forall>p. length (filter (\<lambda>f. folder_platform f = Some p) (folders s')) = 1))
        \<and> isHydrated s'
        \<and> stored_folders (localStorage s') = Some (folders s')"
    unfolding Let_def
    using len nth all cnt one f(2) f(3) by blast
next
  fix fs
  assume h: "stored_folders (localStorage s) = Some fs \<and> fs \<noteq> []"
  then show "folders (loadFromStorage PF clock s) = fs"
    by (simp add: loadFromStorage_def Let_def)
  from h show "isHydrated (loadFromStorage PF clock s)"
    by (simp add: loadFromStorage_def Let_def)
  from h show "localStorage (loadFromStorage PF clock s) = localStorage s"
    by (simp add: loadFromStorage_def Let_def)
qed

theorem loadFromStorage_platform_folders_witness:
  "stored_folders (localStorage (initialState emptyStorage)) = None
   \<and> (\<forall>p. length (filter (\<lambda>pf. pf_platform pf = p) example_PLATFORM_FOLDERS) = 1)
   \<and> length (folders (loadFromStorage example_PLATFORM_FOLDERS example_load_clock
                 (initialState emptyStorage))) = 10
   \<and> (\<forall>p. length (filter (\<lambda>f. folder_platform f = Some p)
                (folders (loadFromStorage example_PLATFORM_FOLDERS example_load_clock
                   (initialState emptyStorage)))) = 1)
   \<and> isHydrated (loadFromStorage example_PLATFORM_FOLDERS example_load_clock
                    (initialState emptyStorage))"
proof -
  have e: "stored_folders (localStorage (initialState emptyStorage)) = None"
    by (simp add: initialState_def emptyStorage_def)
  have n: "length example_PLATFORM_FOLDERS = 10"
    by (simp add: example_PLATFORM_FOLDERS_def)
  show ?thesis
    using loadFromStorage_platform_folders [of "initialState emptyStorage" example_PLATFORM_FOLDERS example_load_clock]
      e example_PLATFORM_FOLDERS_one_each n
    by (simp add: Let_def)
qed

subsection \<open>The folder hierarchy\<close>

lemma hierarchy_okD:
  assumes "hierarchy_ok K"
  shows "\<And>i q j r. (i, q) \<in> K \<Longrightarrow> (j, r) \<in> K \<Longrightarrow> r \<noteq> None \<Longrightarrow> q \<noteq> Some j"
    and "\<And>i q r. (i, q) \<in> K \<Longrightarrow> (i, r) \<in> K \<Longrightarrow> (q = None \<longleftrightarrow> r = None)"
    and "\<And>q. ([], q) \<notin> K"
  using assms unfolding hierarchy_ok_def by blast+

lemma hierarchy_okI:
  assumes "\<And>i q j r. (i, q) \<in> K \<Longrightarrow> (j, r) \<in> K \<Longrightarrow> r \<noteq> None \<Longrightarrow> q \<noteq> Some j"
    and "\<And>i q r. (i, q) \<in> K \<Longrightarrow> (i, r) \<in> K \<Longrightarrow> (q = None \<longleftrightarrow> r = None)"
    and "\<And>q. ([], q) \<notin> K"
  shows "hierarchy_ok K"
  unfolding hierarchy_ok_def using assms by blast

lemma hierarchy_ok_subset:
  assumes "hierarchy_ok K" and "K' \<subseteq> K"
  shows "hierarchy_ok K'"
proof (rule hierarchy_okI)
  fix i q j r
  assume "(i, q) \<in> K'" "(j, r) \<in> K'" "r \<noteq> None"
  then show "q \<noteq> Some j"
    using hierarchy_okD(1) [OF assms(1), of i q j r] assms(2) by blast
next
  fix i q r
  assume "(i, q) \<in> K'" "(i, r) \<in> K'"
  then show "q = None \<longleftrightarrow> r = None"
    using hierarchy_okD(2) [OF assms(1), of i q r] assms(2) by blast
next
  fix q
  show "([], q) \<notin> K'"
    using hierarchy_okD(3) [OF assms(1), of q] assms(2) by blast
qed

lemma hierarchy_ok_roots:
  assumes "\<And>i p. (i, p) \<in> K \<Longrightarrow> p = None \<and> i \<noteq> []"
  shows "hierarchy_ok K"
proof (rule hierarchy_okI)
  fix i q j r
  assume "(i, q) \<in> K" "(j, r) \<in> K" "r \<noteq> None"
  then show "q \<noteq> Some j"
    using assms [of j r] by simp
next
  fix i q r
  assume "(i, q) \<in> K" "(i, r) \<in> K"
  then show "q = None \<longleftrightarrow> r = None"
    using assms [of i q] assms [of i r] by simp
next
  fix q
  show "([], q) \<notin> K"
    using assms [of "[]" q] by blast
qed

lemma hierarchy_ok_insert:
  assumes "hierarchy_ok K" and "u \<noteq> []" and "u \<notin> fst ` K" and "Some u \<notin> snd ` K"
    and "case p of None \<Rightarrow> True | Some x \<Rightarrow> x = [] \<or> (x, None) \<in> K"
  shows "hierarchy_ok (insert (u, p) K)"
proof -
  note a = hierarchy_okD(1) [OF assms(1)]
    and b = hierarchy_okD(2) [OF assms(1)]
    and c = hierarchy_okD(3) [OF assms(1)]
  have fresh1: "\<And>q. (u, q) \<notin> K"
    using assms(3) by force
  have fresh2: "\<And>i. (i, Some u) \<notin> K"
    using assms(4) by force
  have self: "p \<noteq> Some u"
    using assms(5) assms(2) fresh1 by (auto split: option.splits)
  have newparent: "p \<noteq> Some j" if "(j, r) \<in> K" "r \<noteq> None" for j r
  proof (cases p)
    case None
    then show ?thesis by simp
  next
    case (Some x)
    show ?thesis
    proof (cases "x = []")
      case True
      then show ?thesis using Some c that by auto
    next
      case False
      then have "(x, None) \<in> K"
        using assms(5) Some by simp
      then show ?thesis
        using b [of x None r] Some that by auto
    qed
  qed
  have 1: "q \<noteq> Some j"
    if "(i, q) \<in> insert (u, p) K" "(j, r) \<in> insert (u, p) K" "r \<noteq> None" for i q j r
    using that a [of i q j r] fresh2 [of i] self newparent [of j r] by auto
  have 2: "(q = None \<longleftrightarrow> r = None)"
    if "(i, q) \<in> insert (u, p) K" "(i, r) \<in> insert (u, p) K" for i q r
    using that b [of i q r] fresh1 by auto
  have 3: "([], q) \<notin> insert (u, p) K" for q
    using c assms(2) by auto
  show ?thesis
    using 1 2 3 by (rule hierarchy_okI)
qed

lemma folder_shape_append:
  "folder_shape (fs @ [n]) = insert (folder_id n, parentId n) (folder_shape fs)"
  by (auto simp add: folder_shape_def)

lemma folder_shape_filter: "folder_shape (filter P fs) \<subseteq> folder_shape fs"
  by (auto simp add: folder_shape_def)

lemma spread_folder_shape:
  "fp_id u = None \<Longrightarrow> fp_parentId u = None \<Longrightarrow>
   folder_id (spread_folder f u) = folder_id f \<and> parentId (spread_folder f u) = parentId f"
  by (simp add: spread_folder_def override_def)

lemma folder_shape_update:
  assumes "fp_id u = None" and "fp_parentId u = None"
  shows "folder_shape (mapi (\<lambda>j f. if folder_id f = i
                                    then (spread_folder f u)\<lparr>folder_updatedAt := now j\<rparr>
                                    else f) fs) = folder_shape fs"
proof -
  have "map (\<lambda>f. (folder_id f, parentId f))
          (mapi (\<lambda>j f. if folder_id f = i
                        then (spread_folder f u)\<lparr>folder_updatedAt := now j\<rparr>
                        else f) fs)
        = map (\<lambda>f. (folder_id f, parentId f)) fs"
    using spread_folder_shape [OF assms]
    by (intro nth_equalityI) (simp_all add: mapi_nth)
  then have "set (map (\<lambda>f. (folder_id f, parentId f))
          (mapi (\<lambda>j f. if folder_id f = i
                        then (spread_folder f u)\<lparr>folder_updatedAt := now j\<rparr>
                        else f) fs))
        = set (map (\<lambda>f. (folder_id f, parentId f)) fs)"
    by (rule arg_cong)
  then show ?thesis
    by (simp only: folder_shape_def set_map)
qed

lemma folder_shape_platform:
  assumes "(i, p) \<in> folder_shape (mapi (platform_folder clock) PF)"
  shows "p = None \<and> i \<noteq> []"
proof -
  obtain k where "k < length PF"
    and "i = folder_id (mapi (platform_folder clock) PF ! k)"
    and "p = parentId (mapi (platform_folder clock) PF ! k)"
    using assms by (auto simp add: folder_shape_def in_set_conv_nth)
  then show ?thesis
    by (simp add: mapi_nth platform_folder_fields)
qed

lemma store_ok_first_load:
  assumes "stored_folders st = None \<or> stored_folders st = Some []"
  shows "store_ok (loadFromStorage PF clock (initialState st))"
proof -
  let ?s = "loadFromStorage PF clock (initialState st)"
  have f: "folders ?s = mapi (platform_folder clock) PF"
    and st: "stored_folders (localStorage ?s) = Some (folders ?s)"
    using assms
    by (auto simp add: loadFromStorage_def Let_def setItem_FOLDERS_def initialState_def)
  have "hierarchy_ok (folder_shape (folders ?s))"
    unfolding f by (rule hierarchy_ok_roots) (rule folder_shape_platform)
  then show ?thesis
    using st by (simp add: store_ok_def)
qed

lemma store_ok_reload:
  assumes "store_ok s"
  shows "store_ok (loadFromStorage PF clock s)"
proof (cases "folders s = []")
  case True
  let ?s = "loadFromStorage PF clock s"
  have "stored_folders (localStorage s) = Some []"
    using assms True by (simp add: store_ok_def)
  then have f: "folders ?s = mapi (platform_folder clock) PF"
    and st: "stored_folders (localStorage ?s) = Some (folders ?s)"
    by (auto simp add: loadFromStorage_def Let_def setItem_FOLDERS_def)
  have "hierarchy_ok (folder_shape (folders ?s))"
    unfolding f by (rule hierarchy_ok_roots) (rule folder_shape_platform)
  then show ?thesis
    using st by (simp add: store_ok_def)
next
  case False
  have "stored_folders (localStorage s) = Some (folders s)"
    using assms by (simp add: store_ok_def)
  then have "folders (loadFromStorage PF clock s) = folders s"
    and "localStorage (loadFromStorage PF clock s) = localStorage s"
    using False by (auto simp add: loadFromStorage_def Let_def)
  then show ?thesis
    using assms by (simp add: store_ok_def)
qed

lemma store_ok_ui:
  "store_ok s \<Longrightarrow> store_ok (setEditingFolder e s)"
  "store_ok s \<Longrightarrow> store_ok (setParentFolder p s)"
  "store_ok s \<Longrightarrow> store_ok (setCreateFolderModalOpen b s)"
  "store_ok s \<Longrightarrow> store_ok (handleClose s)"
  by (simp_all add: store_ok_def setEditingFolder_def setParentFolder_def
      setCreateFolderModalOpen_def handleClose_def)

lemma store_ok_links:
  "store_ok s \<Longrightarrow> store_ok (addLink uuid now1 now2 d s)"
  "store_ok s \<Longrightarrow> store_ok (updateLink now i lu s)"
  "store_ok s \<Longrightarrow> store_ok (deleteLink now' i s)"
  "store_ok s \<Longrightarrow> store_ok (restoreLink now i s)"
  "store_ok s \<Longrightarrow> store_ok (permanentlyDeleteLink i s)"
  "store_ok s \<Longrightarrow> store_ok (toggleFavorite now i s)"
  by (simp_all add: store_ok_def addLink_def updateLink_def deleteLink_def restoreLink_def
      permanentlyDeleteLink_def toggleFavorite_def Let_def setItem_LINKS_def)

lemma store_ok_deleteFolder: "store_ok s \<Longrightarrow> store_ok (deleteFolder i s)"
  using hierarchy_ok_subset [OF _ folder_shape_filter]
  by (simp add: store_ok_def deleteFolder_def Let_def setItem_FOLDERS_def)

lemma store_ok_updateFolder:
  "store_ok s \<Longrightarrow> fp_id u = None \<Longrightarrow> fp_parentId u = None \<Longrightarrow> store_ok (updateFolder now i u s)"
  by (simp add: store_ok_def updateFolder_def Let_def setItem_FOLDERS_def folder_shape_update)

lemma store_ok_addFolder:
  assumes "store_ok s" and "uuid \<noteq> []" and "uuid \<notin> folder_id ` set (folders s)"
    and "Some uuid \<notin> parentId ` set (folders s)"
    and "case fd_parentId fd of
           None \<Rightarrow> True
         | Some p \<Rightarrow> p = [] \<or> (\<exists>pa\<in>set (folders s). folder_id pa = p \<and> parentId pa = None)"
  shows "store_ok (addFolder uuid now1 now2 fd s)"
proof -
  let ?K = "folder_shape (folders s)"
  have ok: "hierarchy_ok ?K"
    using assms(1) by (simp add: store_ok_def)
  have f1: "uuid \<notin> fst ` ?K"
    using assms(3) by (force simp add: folder_shape_def)
  have f2: "Some uuid \<notin> snd ` ?K"
    using assms(4) by (force simp add: folder_shape_def)
  have par: "case fd_parentId fd of None \<Rightarrow> True | Some x \<Rightarrow> x = [] \<or> (x, None) \<in> ?K"
    using assms(5) by (force simp add: folder_shape_def split: option.splits)
  have "hierarchy_ok (insert (uuid, fd_parentId fd) ?K)"
    using ok assms(2) f1 f2 par by (rule hierarchy_ok_insert)
  then show ?thesis
    by (simp add: store_ok_def addFolder_def Let_def setItem_FOLDERS_def folder_shape_append)
qed

lemma find_Some_member: "find P xs = Some x \<Longrightarrow> x \<in> set xs \<and> P x"
  by (induction xs) (auto split: if_splits)

lemma onSubmit_cases:
  obtains (rejected) "fst (onSubmit ICONS uuid now1 now2 now form s) = s"
  | (edited) ef :: folder and u :: folder_partial where
      "fst (onSubmit ICONS uuid now1 now2 now form s)
         = handleClose (updateFolder now (folder_id ef) u s)"
      "fp_id u = None" "fp_parentId u = None"
  | (created) fd :: folderData where
      "fst (onSubmit ICONS uuid now1 now2 now form s) = handleClose (addFolder uuid now1 now2 fd s)"
      "fd_parentId fd = parentFolderId s"
      "case parentFolderId s of
         None \<Rightarrow> True
       | Some p \<Rightarrow> p = [] \<or> (\<exists>pa\<in>set (folders s). folder_id pa = p \<and> parentId pa = None)"
proof (cases "editingFolder s")
  case (Some ef)
  let ?u = "no_folder_updates\<lparr>fp_name := Some (form_name form),
              fp_icon := Some (form_iconName form),
              fp_color := Some (folder_color ICONS (form_iconName form))\<rparr>"
  have e1: "fst (onSubmit ICONS uuid now1 now2 now form s)
          = handleClose (updateFolder now (folder_id ef) ?u s)"
    using Some by (simp add: onSubmit_def Let_def)
  have e2: "fp_id ?u = None" and e3: "fp_parentId ?u = None"
    by (simp_all add: no_folder_updates_def)
  show ?thesis
    using e1 e2 e3 by (rule edited)
next
  case None
  let ?fd = "\<lparr>fd_name = form_name form, fd_description = Some [],
              fd_color = folder_color ICONS (form_iconName form),
              fd_icon = form_iconName form,
              fd_parentId = parentFolderId s, fd_isPlatformFolder = False,
              fd_platform = None\<rparr>"
  show ?thesis
  proof (cases "fst (onSubmit ICONS uuid now1 now2 now form s) = s")
    case True
    then show ?thesis by (rule rejected)
  next
    case False
    have run: "fst (onSubmit ICONS uuid now1 now2 now form s)
                 = handleClose (addFolder uuid now1 now2 ?fd s)"
      and guard: "\<not> (truthy (parentFolderId s)
            \<and> (case (case parentFolderId s of
                      None \<Rightarrow> None
                    | Some p \<Rightarrow> find (\<lambda>f. folder_id f = p) (folders s)) of
                  None \<Rightarrow> True | Some pa \<Rightarrow> parentId pa \<noteq> None))"
      using None False by (auto simp add: onSubmit_def Let_def split: if_splits)
    have "case parentFolderId s of
         None \<Rightarrow> True
       | Some p \<Rightarrow> p = [] \<or> (\<exists>pa\<in>set (folders s). folder_id pa = p \<and> parentId pa = None)"
      using guard
      by (auto simp add: truthy_def split: option.splits dest: find_Some_member)
    with run show ?thesis
      by (intro created [of ?fd]) simp_all
  qed
qed

lemma store_ok_onSubmit:
  assumes "store_ok s" and "uuid \<noteq> []" and "uuid \<notin> folder_id ` set (folders s)"
    and "Some uuid \<notin> parentId ` set (folders s)"
  shows "store_ok (fst (onSubmit ICONS uuid now1 now2 now form s))"
proof (cases rule: onSubmit_cases [of ICONS uuid now1 now2 now form s])
  case rejected
  then show ?thesis using assms(1) by simp
next
  case (edited ef u)
  then show ?thesis
    using assms(1) by (simp add: store_ok_ui store_ok_updateFolder)
next
  case (created fd)
  have "store_ok (addFolder uuid now1 now2 fd s)"
    using assms created(2,3) by (intro store_ok_addFolder) simp_all
  then show ?thesis
    using created(1) by (simp add: store_ok_ui)
qed

lemma reachable_store_ok:
  "reachable PF ICONS s \<Longrightarrow> store_ok s"
proof (induction rule: reachable.induct)
  case (first_load st clock)
  then show ?case by (rule store_ok_first_load)
next
  case (reload s clock)
  then show ?case by (simp add: store_ok_reload)
next
  case (submit s uuid now1 now2 now form)
  then show ?case by (simp add: store_ok_onSubmit)
qed (simp_all add: store_ok_ui store_ok_links store_ok_deleteFolder store_ok_updateFolder)

lemma hierarchy_ok_two_level:
  assumes "hierarchy_ok (folder_shape fs)"
  shows "two_level_where_present fs"
proof -
  have "parentId G = None"
    if "F \<in> set fs" "parentId F = Some p" "G \<in> set fs" "folder_id G = p" for F G p
  proof (rule ccontr)
    assume "parentId G \<noteq> None"
    moreover have "(folder_id F, parentId F) \<in> folder_shape fs"
      and "(folder_id G, parentId G) \<in> folder_shape fs"
      using that by (auto simp add: folder_shape_def)
    ultimately have "parentId F \<noteq> Some (folder_id G)"
      using hierarchy_okD(1) [OF assms] by blast
    then show False
      using that by simp
  qed
  then show ?thesis
    by (auto simp add: two_level_where_present_def list_all_iff split: option.splits)
qed

lemma example_loaded_shape:
  "map (\<lambda>f. (folder_id f, parentId f)) (folders example_loaded) =
     [(''platform-folder-0-1760778000000'', None), (''platform-folder-1-1760778000000'', None),
      (''platform-folder-2-1760778000000'', None), (''platform-folder-3-1760778000000'', None),
      (''platform-folder-4-1760778000000'', None), (''platform-folder-5-1760778000000'', None),
      (''platform-folder-6-1760778000000'', None), (''platform-folder-7-1760778000000'', None),
      (''platform-folder-8-1760778000000'', None), (''platform-folder-9-1760778000000'', None)]"
  by (simp add: example_loaded_def loadFromStorage_def initialState_def emptyStorage_def Let_def
      example_PLATFORM_FOLDERS_def mapi_Cons mapi_Nil platform_folder_def
      example_load_clock_def string_of_nat.simps digit_def)

lemma example_with_sub_shape:
  "map (\<lambda>f. (folder_id f, parentId f)) (folders example_with_sub) =
     [(''platform-folder-0-1760778000000'', None), (''platform-folder-1-1760778000000'', None),
      (''platform-folder-2-1760778000000'', None), (''platform-folder-3-1760778000000'', None),
      (''platform-folder-4-1760778000000'', None), (''platform-folder-5-1760778000000'', None),
      (''platform-folder-6-1760778000000'', None), (''platform-folder-7-1760778000000'', None),
      (''platform-folder-8-1760778000000'', None), (''platform-folder-9-1760778000000'', None),
      (example_uuid, Some ''platform-folder-0-1760778000000'')]"
  by (simp add: example_with_sub_def example_loaded_def loadFromStorage_def initialState_def emptyStorage_def Let_def
      example_PLATFORM_FOLDERS_def mapi_Cons mapi_Nil platform_folder_def
      example_load_clock_def string_of_nat.simps digit_def
      onSubmit_def editingFolder_def setParentFolder_def truthy_def canAddSubFolder_def
      getSubFolderCount_def MAX_SUB_FOLDERS_PER_FOLDER_def handleClose_def addFolder_def
      setEditingFolder_def setCreateFolderModalOpen_def)

lemma two_level_by_shape:
  "two_level fs =
     list_all (\<lambda>(i, p). case p of
                           None \<Rightarrow> True
                         | Some q \<Rightarrow> list_ex (\<lambda>(j, r). j = q \<and> r = None)
                                      (map (\<lambda>f. (folder_id f, parentId f)) fs))
       (map (\<lambda>f. (folder_id f, parentId f)) fs)"
  by (simp add: two_level_def list_all_iff list_ex_iff split: option.splits)

lemma two_level_where_present_by_shape:
  "two_level_where_present fs =
     list_all (\<lambda>(i, p). case p of
                           None \<Rightarrow> True
                         | Some q \<Rightarrow> list_all (\<lambda>(j, r). j = q \<longrightarrow> r = None)
                                      (map (\<lambda>f. (folder_id f, parentId f)) fs))
       (map (\<lambda>f. (folder_id f, parentId f)) fs)"
  by (simp add: two_level_where_present_def list_all_iff split: option.splits)

lemma deleteFolder_shape:
  "map (\<lambda>f. (folder_id f, parentId f)) (folders (deleteFolder i s))
     = filter (\<lambda>(j, p). j \<noteq> i) (map (\<lambda>f. (folder_id f, parentId f)) (folders s))"
  by (simp add: deleteFolder_def Let_def filter_map comp_def)

lemma reparent_shape:
  "map (\<lambda>f. (folder_id f, parentId f))
     (folders (updateFolder now i (no_folder_updates\<lparr>fp_parentId := Some q\<rparr>) s))
     = map (\<lambda>(j, p). if j = i then (j, q) else (j, p))
         (map (\<lambda>f. (folder_id f, parentId f)) (folders s))"
  by (rule nth_equalityI)
    (simp_all add: updateFolder_def Let_def mapi_nth spread_folder_def override_def
      no_folder_updates_def)

lemma example_with_sub_reachable:
  "reachable example_PLATFORM_FOLDERS example_FOLDER_ICONS example_with_sub"
proof -
  have loaded: "reachable example_PLATFORM_FOLDERS example_FOLDER_ICONS example_loaded"
    unfolding example_loaded_def
    by (rule reachable.first_load) (simp add: emptyStorage_def)
  let ?s1 = "setParentFolder (Some ''platform-folder-0-1760778000000'') example_loaded"
  have s1: "reachable example_PLATFORM_FOLDERS example_FOLDER_ICONS ?s1"
    using loaded by (rule reachable.set_parent)
  have ids: "folder_id ` set (folders ?s1)
               = fst ` set (map (\<lambda>f. (folder_id f, parentId f)) (folders example_loaded))"
    and parents: "parentId ` set (folders ?s1)
               = snd ` set (map (\<lambda>f. (folder_id f, parentId f)) (folders example_loaded))"
    by (simp_all add: setParentFolder_def image_comp comp_def)
  show ?thesis
    unfolding example_with_sub_def
  proof (rule reachable.submit [OF s1])
    show "example_uuid \<noteq> []"
      by (simp add: example_uuid_def)
    show "example_uuid \<notin> folder_id ` set (folders ?s1)"
      unfolding ids example_loaded_shape by (simp add: example_uuid_def)
    show "Some example_uuid \<notin> parentId ` set (folders ?s1)"
      unfolding parents example_loaded_shape by simp
  qed
qed

text \<open>
  C4, as stated, fails. \<^verbatim>\<open>deleteFolder\<close> does not cascade: after a sub-folder is created
  under the first platform folder, through the form and its checks, and that platform folder
  is deleted, the sub-folder's \<^verbatim>\<open>parentId\<close> names a folder that is not in the collection.
  And \<^verbatim>\<open>updateFolder\<close> merges any \<^verbatim>\<open>parentId\<close> it is given: putting the second platform
  folder under the sub-folder makes a tree three levels deep.
\<close>

theorem folder_tree_two_level_counterexample:
  "reachable example_PLATFORM_FOLDERS example_FOLDER_ICONS example_parent_deleted
   \<and> \<not> two_level (folders example_parent_deleted)
   \<and> \<not> two_level (folders example_reparented)"
proof -
  have del: "reachable example_PLATFORM_FOLDERS example_FOLDER_ICONS example_parent_deleted"
    unfolding example_parent_deleted_def
    using example_with_sub_reachable by (rule reachable.delete_folder)
  have a: "\<not> two_level (folders example_parent_deleted)"
    unfolding two_level_by_shape example_parent_deleted_def deleteFolder_shape
      example_with_sub_shape
    by (simp add: example_uuid_def)
  have b: "\<not> two_level (folders example_reparented)"
    unfolding two_level_by_shape example_reparented_def reparent_shape example_with_sub_shape
    by (simp add: example_uuid_def)
  show ?thesis
    using del a b by blast
qed

text \<open>
  C4, amended. In every store reached from the first load by reloads, the folder form's
  submit with its creation-time checks, \<^verbatim>\<open>updateFolder\<close> with updates that carry neither
  \<^verbatim>\<open>id\<close> nor \<^verbatim>\<open>parentId\<close>, \<^verbatim>\<open>deleteFolder\<close> and the link actions, where each drawn
  identifier is non-empty and is neither an identifier nor a parent reference of the
  collection, every folder with a non-null \<^verbatim>\<open>parentId\<close> references only folders whose own
  \<^verbatim>\<open>parentId\<close> is null. The referenced folder need not be present any more.
\<close>

theorem reachable_two_level_where_present:
  "reachable PF ICONS s \<Longrightarrow> two_level_where_present (folders s)"
  using reachable_store_ok [of PF ICONS s] hierarchy_ok_two_level [of "folders s"]
  by (simp add: store_ok_def)

theorem reachable_two_level_where_present_witness:
  "reachable example_PLATFORM_FOLDERS example_FOLDER_ICONS example_with_sub
   \<and> parentId (last (folders example_with_sub)) = Some ''platform-folder-0-1760778000000''
   \<and> two_level_where_present (folders example_with_sub)
   \<and> two_level_where_present
        (folders (deleteFolder ''platform-folder-0-1760778000000'' example_with_sub))"
proof -
  note sub = example_with_sub_reachable
  have del: "reachable example_PLATFORM_FOLDERS example_FOLDER_ICONS
               (deleteFolder ''platform-folder-0-1760778000000'' example_with_sub)"
    using sub by (rule reachable.delete_folder)
  have "map (\<lambda>f. (folder_id f, parentId f)) (folders example_with_sub) \<noteq> []"
    unfolding example_with_sub_shape by simp
  then have ne: "folders example_with_sub \<noteq> []"
    by auto
  have "snd (last (map (\<lambda>f. (folder_id f, parentId f)) (folders example_with_sub)))
          = Some ''platform-folder-0-1760778000000''"
    unfolding example_with_sub_shape by simp
  then have par: "parentId (last (folders example_with_sub))
                    = Some ''platform-folder-0-1760778000000''"
    using ne by (simp add: last_map)
  show ?thesis
    using sub par reachable_two_level_where_present [OF sub]
      reachable_two_level_where_present [OF del]
    by blast
qed

end
